theory Spec2Isabelle
  imports Main "HOL-Library.AList" "HOL-Library.Extended_Nat"
begin

section \<open>Symbols, rules and grammars (cfg.py)\<close>

text \<open>
  Symbols are Python strings or the invented objects \<open>Slash(Y, Z, id)\<close> and
  \<open>Frozen(X, id)\<close>, which compare structurally.
\<close>

datatype sym = Str string | Slash sym sym int | Frozen sym int

fun isSlash :: "sym \<Rightarrow> bool" where
  "isSlash (Slash Y Z i) = True"
| "isSlash _ = False"

fun isFrozen :: "sym \<Rightarrow> bool" where
  "isFrozen (Frozen X i) = True"
| "isFrozen _ = False"

text \<open>Decimal printing of the integers that appear in generated names.\<close>

definition digit_char :: "nat \<Rightarrow> char" where
  "digit_char d = char_of (48 + d)"

fun str_nat :: "nat \<Rightarrow> string" where
  "str_nat n = (if n < 10 then [digit_char n] else str_nat (n div 10) @ [digit_char (n mod 10)])"

definition str_int :: "int \<Rightarrow> string" where
  "str_int i = (if i < 0 then CHR ''-'' # str_nat (nat (- i)) else str_nat (nat i))"

text \<open>\<open>__repr__\<close> of the symbols; a string prints as itself inside an f-string.\<close>

fun str_sym :: "sym \<Rightarrow> string" where
  "str_sym (Str s) = s"
| "str_sym (Slash Y Z i) =
     (if i = 0 then str_sym Y @ ''/'' @ str_sym Z
      else str_sym Y @ ''/'' @ str_sym Z @ ''@'' @ str_int i)"
| "str_sym (Frozen X i) =
     (if i = 0 then ''~'' @ str_sym X
      else ''~'' @ str_sym X @ ''@'' @ str_int i)"

text \<open>
  \<open>_gen_nt(prefix)\<close> increments the process-wide counter \<open>_gen_nt.i\<close> and returns
  the prefix, an at sign and the decimal counter. The counter is threaded explicitly: the function takes its current
  value and returns the name with the new value. \<open>gen_nt_name\<close> is the name for a given
  (already incremented) counter value.
\<close>

definition gen_nt_name :: "string \<Rightarrow> nat \<Rightarrow> sym" where
  "gen_nt_name prefix i = Str (prefix @ ''@'' @ str_nat i)"

definition gen_nt :: "string \<Rightarrow> nat \<Rightarrow> sym \<times> nat" where
  "gen_nt prefix i = (gen_nt_name prefix (i + 1), i + 1)"

text \<open>
  \<open>class Rule\<close>: weight, head and body. The field \<open>_hash\<close> is \<open>hash((head, body))\<close>,
  where \<open>hash\<close> is Python's builtin; it is a parameter \<open>h\<close> here.
\<close>

record 'w rule =
  rule_w :: 'w
  rule_head :: sym
  rule_body :: "sym list"

definition Rule :: "'w \<Rightarrow> sym \<Rightarrow> sym list \<Rightarrow> 'w rule" where
  "Rule w head body = \<lparr>rule_w = w, rule_head = head, rule_body = body\<rparr>"

definition rule_hash :: "(sym \<times> sym list \<Rightarrow> int) \<Rightarrow> 'w rule \<Rightarrow> int" where
  "rule_hash h r = h (rule_head r, rule_body r)"

text \<open>\<open>Rule.__eq__\<close>: weight, hash, head and body are all compared.\<close>

definition rule_eq :: "(sym \<times> sym list \<Rightarrow> int) \<Rightarrow> 'w rule \<Rightarrow> 'w rule \<Rightarrow> bool" where
  "rule_eq h r other =
     (rule_w r = rule_w other \<and> rule_hash h r = rule_hash h other
      \<and> rule_head other = rule_head r \<and> rule_body other = rule_body r)"

text \<open>
  \<open>class CFG\<close>: the semiring \<open>R\<close> is the weight type (its \<open>zero\<close>, \<open>one\<close>, \<open>+\<close> and
  \<open>*\<close> are the type's \<open>0\<close>, \<open>1\<close>, \<open>+\<close> and \<open>*\<close>). \<open>V\<close> and \<open>N\<close> are Python sets;
  they are lists without repetition here, in some iteration order.
\<close>

record 'w cfg =
  cfg_S :: sym
  cfg_V :: "sym list"
  cfg_N :: "sym list"
  cfg_rules :: "'w rule list"

definition CFG :: "sym \<Rightarrow> sym list \<Rightarrow> 'w cfg" where
  "CFG S V = \<lparr>cfg_S = S, cfg_V = V, cfg_N = [S], cfg_rules = []\<rparr>"

definition is_terminal :: "'w cfg \<Rightarrow> sym \<Rightarrow> bool" where
  "is_terminal g x = (x \<in> set (cfg_V g))"

definition is_nonterminal :: "'w cfg \<Rightarrow> sym \<Rightarrow> bool" where
  "is_nonterminal g X = (\<not> is_terminal g X)"

text \<open>\<open>spawn\<close> with no argument, and with \<open>S\<close> or \<open>V\<close> replaced.\<close>

definition spawn :: "'w cfg \<Rightarrow> 'w cfg" where
  "spawn g = CFG (cfg_S g) (cfg_V g)"

definition spawn_S :: "'w cfg \<Rightarrow> sym \<Rightarrow> 'w cfg" where
  "spawn_S g S = CFG S (cfg_V g)"

definition spawn_V :: "'w cfg \<Rightarrow> sym list \<Rightarrow> 'w cfg" where
  "spawn_V g V = CFG (cfg_S g) V"

text \<open>
  \<open>add(w, head, *body)\<close>: returns at once on a zero weight (the result \<open>None\<close>);
  otherwise puts the head into \<open>N\<close>, appends the rule and returns it.
\<close>

definition add :: "'w::zero cfg \<Rightarrow> 'w \<Rightarrow> sym \<Rightarrow> sym list \<Rightarrow> 'w cfg \<times> 'w rule option" where
  "add g w head body =
     (if w = 0 then (g, None)
      else (g\<lparr>cfg_N := List.insert head (cfg_N g),
              cfg_rules := cfg_rules g @ [Rule w head body]\<rparr>, Some (Rule w head body)))"

definition add' :: "'w::zero cfg \<Rightarrow> 'w \<Rightarrow> sym \<Rightarrow> sym list \<Rightarrow> 'w cfg" where
  "add' g w head body = fst (add g w head body)"

section \<open>Derivations\<close>

text \<open>
  \<open>class Derivation\<close>: the rule, the head symbol and the children; a child is a
  derivation or a bare terminal (\<open>Leaf\<close>).
\<close>

datatype 'w deriv = Leaf sym | Deriv "'w rule" sym "'w deriv list"

text \<open>\<open>rhs[X]\<close>: the rules with head \<open>X\<close>, in the order of the rule list.\<close>

definition rhs :: "'w cfg \<Rightarrow> sym \<Rightarrow> 'w rule list" where
  "rhs g X = filter (\<lambda>r. rule_head r = X) (cfg_rules g)"

text \<open>
  \<open>derivations(X, H)\<close> and \<open>_derivations_list(X, H)\<close> are generators; the lists are
  what they yield, in order. \<open>X\<close> may be \<open>None\<close>, which stands for the start symbol.
\<close>

function derivations :: "'w cfg \<Rightarrow> sym option \<Rightarrow> int \<Rightarrow> 'w deriv list"
  and derivations_list :: "'w cfg \<Rightarrow> sym list \<Rightarrow> int \<Rightarrow> 'w deriv list list" where
  "derivations g X0 H =
     (let X = (case X0 of None \<Rightarrow> cfg_S g | Some X' \<Rightarrow> X') in
      if is_terminal g X then [Leaf X]
      else if H \<le> 0 then []
      else concat (map (\<lambda>r. map (\<lambda>ys. Deriv r X ys) (derivations_list g (rule_body r) (H - 1)))
                    (rhs g X)))"
| "derivations_list g [] H = [[]]"
| "derivations_list g (x # xs) H =
     concat (map (\<lambda>d. map (\<lambda>ds. d # ds) (derivations_list g xs H)) (derivations g (Some x) H))"
  by pat_completeness auto
termination
  by (relation "inv_image (less_than <*lex*> less_than)
        (\<lambda>a. case a of Inl (g, X, H) \<Rightarrow> (nat H, 0)
                      | Inr (g, xs, H) \<Rightarrow> (nat H, Suc (length xs)))") auto

section \<open>Structural transformations\<close>

text \<open>Exceptions of the Python code are values; a function that can raise returns a sum.\<close>

datatype error = AssertionError | AttributeError | IndexError | KeyError | ValueError | ZeroDivisionError

definition bindE :: "error + 'a \<Rightarrow> ('a \<Rightarrow> error + 'b) \<Rightarrow> error + 'b" where
  "bindE m f = (case m of Inl e \<Rightarrow> Inl e | Inr a \<Rightarrow> f a)"

text \<open>The loop \<open>for r in rs: new.add(r.w, r.head, *r.body)\<close>.\<close>

definition add_rule :: "'w rule \<Rightarrow> 'w::zero cfg \<Rightarrow> 'w cfg" where
  "add_rule r new = add' new (rule_w r) (rule_head r) (rule_body r)"

definition add_all :: "'w rule list \<Rightarrow> 'w::zero cfg \<Rightarrow> 'w cfg" where
  "add_all rs new = fold add_rule rs new"

text \<open>The set \<open>{y for r in self for y in r.body}\<close>.\<close>

definition body_syms :: "'w cfg \<Rightarrow> sym set" where
  "body_syms g = (\<Union>r \<in> set (cfg_rules g). set (rule_body r))"

text \<open>
  \<open>separate_start\<close>: takes the grammar and the counter of generated names, and returns
  the grammar with the counter. When \<open>S\<close> is in no body the grammar itself is returned.
\<close>

definition separate_start :: "'w::{zero,one} cfg \<Rightarrow> nat \<Rightarrow> 'w cfg \<times> nat" where
  "separate_start g c =
     (if cfg_S g \<in> body_syms g then
        (let (S, c') = gen_nt (str_sym (cfg_S g)) c;
             new = spawn_S g S;
             new = add' new 1 S [cfg_S g]
         in (add_all (cfg_rules g) new, c'))
      else (g, c))"

text \<open>
  \<open>separate_terminals\<close>. The state of its loop is the new grammar, the dictionary
  \<open>_preterminal\<close> and the counter of generated names. \<open>preterminal(x)\<close> returns the
  rule stored for \<open>x\<close>, adding it first when there is none; when \<open>add\<close> drops the rule
  (the semiring's one is its zero) the result is \<open>None\<close>, and reading its \<open>head\<close> raises.
\<close>

type_synonym 'w st_state = "'w cfg \<times> (sym \<rightharpoonup> 'w rule) \<times> nat"

definition preterminal :: "'w::{zero,one} st_state \<Rightarrow> sym \<Rightarrow> 'w rule option \<times> 'w st_state" where
  "preterminal st x =
     (case st of (new, pt, c) \<Rightarrow>
        (case pt x of
           Some y \<Rightarrow> (Some y, st)
         | None \<Rightarrow>
            (let (nm, c') = gen_nt [] c;
                 (new', y) = add new 1 nm [x]
             in (y, (new', (case y of None \<Rightarrow> pt | Some r \<Rightarrow> pt(x \<mapsto> r)), c')))))"

text \<open>The generator \<open>(preterminal(y).head if y in self.V else y) for y in r.body\<close>.\<close>

fun st_body :: "sym list \<Rightarrow> 'w::{zero,one} st_state \<Rightarrow> sym list \<Rightarrow> error + (sym list \<times> 'w st_state)" where
  "st_body V st [] = Inr ([], st)"
| "st_body V st (y # ys) =
     (if y \<in> set V then
        (case preterminal st y of
           (None, st') \<Rightarrow> Inl AttributeError
         | (Some r, st') \<Rightarrow>
             bindE (st_body V st' ys) (\<lambda>(zs, st''). Inr (rule_head r # zs, st'')))
      else bindE (st_body V st ys) (\<lambda>(zs, st''). Inr (y # zs, st'')))"

definition st_rule :: "'w::{zero,one} cfg \<Rightarrow> 'w st_state \<Rightarrow> 'w rule \<Rightarrow> error + 'w st_state" where
  "st_rule g st r =
     (if length (rule_body r) = 1 \<and> is_terminal g (rule_body r ! 0) then
        (case st of (new, pt, c) \<Rightarrow> Inr (add_rule r new, pt, c))
      else
        bindE (st_body (cfg_V g) st (rule_body r))
          (\<lambda>(zs, (new, pt, c)). Inr (add' new (rule_w r) (rule_head r) zs, pt, c)))"

fun st_rules :: "'w::{zero,one} cfg \<Rightarrow> 'w st_state \<Rightarrow> 'w rule list \<Rightarrow> error + 'w st_state" where
  "st_rules g st [] = Inr st"
| "st_rules g st (r # rs) = bindE (st_rule g st r) (\<lambda>st'. st_rules g st' rs)"

definition separate_terminals :: "'w::{zero,one} cfg \<Rightarrow> nat \<Rightarrow> error + ('w cfg \<times> nat)" where
  "separate_terminals g c =
     bindE (st_rules g (spawn g, Map.empty, c) (cfg_rules g)) (\<lambda>(new, pt, c'). Inr (new, c'))"

text \<open>
  \<open>_fold(p, I)\<close>: one generated head and one unit-weight rule for each index pair of
  \<open>I\<close>, then the rule of \<open>p\<close> with each slice replaced by its head. The slices are
  Python's, on indices that are not negative.
\<close>

definition slice :: "'a list \<Rightarrow> nat \<Rightarrow> nat \<Rightarrow> 'a list" where
  "slice xs i j = drop i (take j xs)"

fun fold_heads :: "'w::one rule \<Rightarrow> (nat \<times> nat) list \<Rightarrow> nat \<Rightarrow> 'w rule list \<times> sym list \<times> nat" where
  "fold_heads p [] c = ([], [], c)"
| "fold_heads p ((i, j) # I) c =
     (let (head, c') = gen_nt [] c;
          (P, heads, c'') = fold_heads p I c'
      in (Rule 1 head (slice (rule_body p) i (j + 1)) # P, head # heads, c''))"

fun fold_body :: "'w rule \<Rightarrow> ((nat \<times> nat) \<times> sym) list \<Rightarrow> nat \<Rightarrow> sym list" where
  "fold_body p [] start = drop start (rule_body p)"
| "fold_body p (((end, n), head) # Ih) start =
     slice (rule_body p) start end @ [head] @ fold_body p Ih (n + 1)"

definition fold_rule :: "'w::one rule \<Rightarrow> (nat \<times> nat) list \<Rightarrow> nat \<Rightarrow> 'w rule list \<times> nat" where
  "fold_rule p I c =
     (let (P, heads, c') = fold_heads p I c
      in (P @ [Rule (rule_w p) (rule_head p) (fold_body p (zip I heads) 0)], c'))"

text \<open>
  \<open>binarize\<close>: the stack is a list with its top first, so \<open>stack.pop()\<close> takes the
  head and \<open>stack.extend(P)\<close> puts the reversed \<open>P\<close> in front.
\<close>

definition binarize_size :: "'w rule \<Rightarrow> nat" where
  "binarize_size p = (if length (rule_body p) \<le> 2 then 1 else 2 * (length (rule_body p) - 2) + 1)"

function binarize_loop :: "'w::{zero,one} cfg \<Rightarrow> 'w rule list \<Rightarrow> nat \<Rightarrow> 'w cfg \<times> nat" where
  "binarize_loop new [] c = (new, c)"
| "binarize_loop new (p # stack) c =
     (if length (rule_body p) \<le> 2 then binarize_loop (add_rule p new) stack c
      else (let (P, c') = fold_rule p [(0, 1)] c in binarize_loop new (rev P @ stack) c'))"
  by pat_completeness auto
termination
proof (relation "measure (\<lambda>(new, stack, c). sum_list (map binarize_size stack))", goal_cases)
  case 1
  show ?case by simp
next
  case (2 new p stack c)
  show ?case by (simp add: binarize_size_def)
next
  case (3 new p stack c x xa y)
  then show ?case
    by (auto simp: fold_rule_def gen_nt_def Rule_def slice_def binarize_size_def split: prod.splits)
qed

definition binarize :: "'w::{zero,one} cfg \<Rightarrow> nat \<Rightarrow> 'w cfg \<times> nat" where
  "binarize g c = binarize_loop (spawn g) (rev (cfg_rules g)) c"

section \<open>Charts, the agenda and the closure\<close>

text \<open>
  Modelled from the spec: the chart of the semiring module (\<open>leftcorner/semiring.py\<close>,
  which builds what \<open>R.chart()\<close> returns) is a mapping that reads zero at an absent key,
  deletes the entry when a zero is written, and whose \<open>+=\<close> adds with the semiring's
  addition. It is a dictionary, so it keeps the order of insertion and \<open>popitem\<close> takes
  the entry inserted last: an association list, oldest entry first.
\<close>

type_synonym ('k, 'w) chart = "('k \<times> 'w) list"

definition chart_get :: "('k, 'w::zero) chart \<Rightarrow> 'k \<Rightarrow> 'w" where
  "chart_get ch k = (case map_of ch k of None \<Rightarrow> 0 | Some v \<Rightarrow> v)"

definition chart_set :: "('k, 'w::zero) chart \<Rightarrow> 'k \<Rightarrow> 'w \<Rightarrow> ('k, 'w) chart" where
  "chart_set ch k v = (if v = 0 then AList.delete k ch else AList.update k v ch)"

definition chart_add :: "('k, 'w::{zero,plus}) chart \<Rightarrow> 'k \<Rightarrow> 'w \<Rightarrow> ('k, 'w) chart" where
  "chart_add ch k v = chart_set ch k (chart_get ch k + v)"

text \<open>
  \<open>agenda(max_iters, tol)\<close>. The test \<open>old[u].metric(new) <= tol\<close> is on floating-point
  numbers computed by the semiring module; it is the parameter \<open>close\<close>.
\<close>

definition routing :: "'w cfg \<Rightarrow> sym \<Rightarrow> ('w rule \<times> nat) list" where
  "routing g u =
     concat (map (\<lambda>r. map (\<lambda>k. (r, k))
                        (filter (\<lambda>k. rule_body r ! k = u) [0..<length (rule_body r)]))
                 (cfg_rules g))"

definition agenda_W ::
  "'w::{zero,times} rule \<Rightarrow> nat \<Rightarrow> sym \<Rightarrow> 'w \<Rightarrow> 'w \<Rightarrow> (sym, 'w) chart \<Rightarrow> 'w" where
  "agenda_W r k u v new old =
     fold (\<lambda>j W.
             if u = rule_body r ! j then
               (if j < k then W * new else if j = k then W * v else W * chart_get old u)
             else W * chart_get old (rule_body r ! j))
          [0..<length (rule_body r)] (rule_w r)"

fun agenda_loop ::
  "('w \<Rightarrow> 'w \<Rightarrow> bool) \<Rightarrow> 'w::{zero,plus,times} cfg \<Rightarrow> nat \<Rightarrow> (sym, 'w) chart \<Rightarrow> (sym, 'w) chart
     \<Rightarrow> (sym, 'w) chart" where
  "agenda_loop close g n change old =
     (if n = 0 then old
      else if change = [] then old
      else (let (u, v) = last change;
                change = butlast change;
                new = chart_get old u + v
            in if close (chart_get old u) new then agenda_loop close g (n - 1) change old
               else agenda_loop close g (n - 1)
                      (fold (\<lambda>(r, k) ch. chart_add ch (rule_head r) (agenda_W r k u v new old))
                            (routing g u) change)
                      (chart_set old u new)))"

definition agenda ::
  "('w \<Rightarrow> 'w \<Rightarrow> bool) \<Rightarrow> 'w::{zero,one,plus,times} cfg \<Rightarrow> nat \<Rightarrow> (sym, 'w) chart" where
  "agenda close g max_iters =
     (let change = fold (\<lambda>a ch. chart_add ch a 1) (cfg_V g) [];
          change = fold (\<lambda>r ch. if length (rule_body r) = 0 then chart_add ch (rule_head r) (rule_w r)
                                 else ch) (cfg_rules g) change
      in agenda_loop close g max_iters change [])"

text \<open>\<open>null_weight\<close>: the agenda, with its default 10000 iterations, on the rules without terminals.\<close>

definition null_weight ::
  "('w \<Rightarrow> 'w \<Rightarrow> bool) \<Rightarrow> 'w::{zero,one,plus,times} cfg \<Rightarrow> (sym, 'w) chart" where
  "null_weight close g =
     agenda close
       (add_all (filter (\<lambda>p. \<not> list_ex (is_terminal g) (rule_body p)) (cfg_rules g)) (spawn_V g []))
       10000"

text \<open>\<open>product([0, 1], repeat=n)\<close>, the last position changing fastest.\<close>

fun masks :: "nat \<Rightarrow> bool list list" where
  "masks 0 = [[]]"
| "masks (Suc n) = concat (map (\<lambda>b. map (\<lambda>bs. b # bs) (masks n)) [False, True])"

text \<open>
  \<open>_push_null_weights(null_weight, recovery, rename)\<close>; the default \<open>rename\<close> puts a
  dollar sign in front of the printed symbol.
\<close>

definition default_rename :: "sym \<Rightarrow> sym" where
  "default_rename x = Str (''$'' @ str_sym x)"

definition pnw_f :: "'w::zero cfg \<Rightarrow> (sym, 'w) chart \<Rightarrow> (sym \<Rightarrow> sym) \<Rightarrow> sym \<Rightarrow> sym" where
  "pnw_f g nw rename x = (if chart_get nw x = 0 \<or> x = cfg_S g then x else rename x)"

definition pnw_mask ::
  "(sym, 'w::{zero,times}) chart \<Rightarrow> (sym \<Rightarrow> sym) \<Rightarrow> 'w rule \<Rightarrow> bool list \<Rightarrow> 'w \<times> sym list" where
  "pnw_mask nw f r B =
     fold (\<lambda>(i, b) (v, new_body).
             if b then (v * chart_get nw (rule_body r ! i), new_body)
             else (v, new_body @ [f (rule_body r ! i)]))
          (List.enumerate 0 B) (rule_w r, [])"

definition pnw_rule ::
  "(sym, 'w::{zero,times}) chart \<Rightarrow> (sym \<Rightarrow> sym) \<Rightarrow> 'w rule \<Rightarrow> 'w cfg \<Rightarrow> 'w cfg" where
  "pnw_rule nw f r rcfg =
     (if length (rule_body r) = 0 then rcfg
      else fold (\<lambda>B rcfg. case pnw_mask nw f r B of (v, new_body) \<Rightarrow>
                   if length new_body > 0 then add' rcfg v (f (rule_head r)) new_body else rcfg)
                (masks (length (rule_body r))) rcfg)"

definition pnw_recovery ::
  "(sym, 'w::{zero,one}) chart \<Rightarrow> (sym \<Rightarrow> sym) \<Rightarrow> sym \<Rightarrow> 'w cfg \<Rightarrow> 'w cfg" where
  "pnw_recovery nw f x rcfg =
     (if f x = x then rcfg else add' (add' rcfg (chart_get nw x) x []) 1 x [f x])"

definition push_null_weights ::
  "'w::{zero,one,times} cfg \<Rightarrow> (sym, 'w) chart \<Rightarrow> bool \<Rightarrow> (sym \<Rightarrow> sym) \<Rightarrow> error + 'w cfg" where
  "push_null_weights g nw recovery rename =
     (if cfg_S g \<in> body_syms g then Inl AssertionError
      else (let f = pnw_f g nw rename;
                rcfg = spawn g;
                rcfg = add' rcfg (chart_get nw (cfg_S g)) (cfg_S g) [];
                rcfg = (if recovery then fold (pnw_recovery nw f) (cfg_N g) rcfg else rcfg)
            in Inr (fold (pnw_rule nw f) (cfg_rules g) rcfg)))"

text \<open>
  \<open>nullaryremove(binarize, recovery, rename)\<close>; the keyword arguments other than
  \<open>binarize\<close> go to \<open>_push_null_weights\<close>.
\<close>

definition nullaryremove ::
  "('w \<Rightarrow> 'w \<Rightarrow> bool) \<Rightarrow> bool \<Rightarrow> bool \<Rightarrow> (sym \<Rightarrow> sym) \<Rightarrow> 'w::{zero,one,plus,times} cfg \<Rightarrow> nat
     \<Rightarrow> error + ('w cfg \<times> nat)" where
  "nullaryremove close binarize_flag recovery rename g c =
     (let (g1, c1) = (if binarize_flag then binarize g c else (g, c));
          (g2, c2) = separate_start g1 c1
      in bindE (push_null_weights g2 (null_weight close g2) recovery rename)
           (\<lambda>g3. Inr (g3, c2)))"

text \<open>
  \<open>_lehmann(N, W)\<close>; \<open>star\<close> is the closure operator of the semiring's values, a
  parameter. The pair is \<open>(V, U)\<close>.
\<close>

definition lehmann_step ::
  "('w \<Rightarrow> 'w) \<Rightarrow> 'n list \<Rightarrow> 'n \<Rightarrow> ('n \<times> 'n, 'w::{zero,plus,times}) chart \<times> ('n \<times> 'n, 'w) chart
     \<Rightarrow> ('n \<times> 'n, 'w) chart \<times> ('n \<times> 'n, 'w) chart" where
  "lehmann_step star N j VU =
     (case VU of (V0, U0) \<Rightarrow>
        (let U = V0;
             s = star (chart_get U (j, j));
             V = fold (\<lambda>i V. fold (\<lambda>k V. chart_set V (i, k)
                          (chart_get U (i, k) + chart_get U (i, j) * s * chart_get U (j, k))) N V) N []
         in (V, U)))"

definition lehmann ::
  "('w \<Rightarrow> 'w) \<Rightarrow> 'n list \<Rightarrow> ('n \<times> 'n, 'w::{zero,one,plus,times}) chart \<Rightarrow> ('n \<times> 'n, 'w) chart" where
  "lehmann star N W =
     (let (V, U) = fold (lehmann_step star N) N (W, W)
      in fold (\<lambda>i V. chart_add V (i, i) 1) N V)"

text \<open>\<open>unaryremove\<close>.\<close>

definition is_unary :: "'w cfg \<Rightarrow> 'w rule \<Rightarrow> bool" where
  "is_unary g p = (length (rule_body p) = 1 \<and> is_nonterminal g (rule_body p ! 0))"

definition unaryremove :: "('w \<Rightarrow> 'w) \<Rightarrow> 'w::{zero,one,plus,times} cfg \<Rightarrow> 'w cfg" where
  "unaryremove star g =
     (let A = fold (\<lambda>p A. if is_unary g p then chart_add A (rule_body p ! 0, rule_head p) (rule_w p) else A)
                (cfg_rules g) [];
          W = lehmann star (cfg_N g) A
      in fold (\<lambda>p new. if is_unary g p then new
                        else fold (\<lambda>Y new. add' new (chart_get W (rule_head p, Y) * rule_w p) Y (rule_body p))
                               (cfg_N g) new)
           (cfg_rules g) (spawn g))"

text \<open>The nullary rules of a grammar, in order.\<close>

definition nullary_rules :: "'w cfg \<Rightarrow> 'w rule list" where
  "nullary_rules g = filter (\<lambda>r. rule_body r = []) (cfg_rules g)"

section \<open>The nullary rules of slash symbols\<close>









section \<open>Trimming\<close>

text \<open>
  \<open>trim(bottomup_only)\<close>. The sets \<open>C\<close>, \<open>T\<close> and \<open>agenda\<close> are lists without
  repetition; \<open>agenda.pop()\<close> takes any element of the set, here the first of the list.
  \<open>outgoing[x]\<close> holds a rule once for each occurrence of \<open>x\<close> in its body.
\<close>

definition outgoing :: "'w cfg \<Rightarrow> sym \<Rightarrow> 'w rule list" where
  "outgoing g x = concat (map (\<lambda>e. map (\<lambda>b. e) (filter (\<lambda>b. b = x) (rule_body e))) (cfg_rules g))"

definition incoming :: "'w cfg \<Rightarrow> sym \<Rightarrow> 'w rule list" where
  "incoming g x = filter (\<lambda>e. rule_head e = x) (cfg_rules g)"

definition trim_up_visit :: "'w rule \<Rightarrow> sym list \<times> sym list \<Rightarrow> sym list \<times> sym list" where
  "trim_up_visit e Ca =
     (case Ca of (C, ag) \<Rightarrow>
        if list_all (\<lambda>b. b \<in> set C) (rule_body e) then
          (if rule_head e \<notin> set C then (rule_head e # C, ag @ [rule_head e]) else (C, ag))
        else (C, ag))"

lemma trim_up_visit_fold:
  assumes "fold trim_up_visit es (C, ag) = (C', ag')"
  shows "(C' = C \<and> ag' = ag)
     \<or> ((\<exists>y\<in>set C'. y \<notin> set C) \<and> set C \<subseteq> set C' \<and> set C' \<subseteq> set C \<union> rule_head ` set es)"
  using assms
proof (induction es arbitrary: C ag)
  case Nil
  then show ?case by simp
next
  case (Cons e es)
  obtain C1 a1 where v: "trim_up_visit e (C, ag) = (C1, a1)" by (cases "trim_up_visit e (C, ag)")
  from Cons.prems v have f: "fold trim_up_visit es (C1, a1) = (C', ag')" by simp
  note 2 = Cons.IH[OF f]
  show ?case
  proof (cases "list_all (\<lambda>b. b \<in> set C) (rule_body e) \<and> rule_head e \<notin> set C")
    case True
    then have c: "C1 = rule_head e # C" using v by (simp add: trim_up_visit_def)
    have h: "rule_head e \<in> set C'" using 2 c by auto
    have "set C \<subseteq> set C'" using 2 c by auto
    moreover have "set C' \<subseteq> set C \<union> rule_head ` set (e # es)" using 2 c by auto
    ultimately show ?thesis using h True by blast
  next
    case False
    then have "C1 = C \<and> a1 = ag" using v by (simp add: trim_up_visit_def split: if_splits)
    then show ?thesis using 2 by auto
  qed
qed

function trim_up :: "'w cfg \<Rightarrow> sym list \<Rightarrow> sym list \<Rightarrow> sym list" where
  "trim_up g C [] = C"
| "trim_up g C (x # ag) =
     (case fold trim_up_visit (outgoing g x) (C, ag) of (C', ag') \<Rightarrow> trim_up g C' ag')"
  by pat_completeness auto
termination
proof (relation "inv_image (less_than <*lex*> less_than)
        (\<lambda>(g, C, ag). (card (rule_head ` set (cfg_rules g) - set C), length ag))", goal_cases)
  case 1
  show ?case by (intro wf_inv_image wf_lex_prod wf_less_than)
next
  case (2 g C x ag C' ag')
  then have f: "fold trim_up_visit (outgoing g x) (C, ag) = (C', ag')" by simp
  have sub: "rule_head ` set (outgoing g x) \<subseteq> rule_head ` set (cfg_rules g)"
    by (auto simp: outgoing_def)
  from trim_up_visit_fold[OF f] show ?case
  proof
    assume "C' = C \<and> ag' = ag"
    then show ?thesis by simp
  next
    assume a: "(\<exists>y\<in>set C'. y \<notin> set C) \<and> set C \<subseteq> set C' \<and> set C' \<subseteq> set C \<union> rule_head ` set (outgoing g x)"
    then obtain y where y: "y \<in> set C'" "y \<notin> set C" by blast
    with a sub have yh: "y \<in> rule_head ` set (cfg_rules g)" by blast
    have "rule_head ` set (cfg_rules g) - set C' \<subset> rule_head ` set (cfg_rules g) - set C"
      using a y yh by blast
    then have "card (rule_head ` set (cfg_rules g) - set C') < card (rule_head ` set (cfg_rules g) - set C)"
      by (intro psubset_card_mono) auto
    then show ?thesis by simp
  qed
qed


definition trim_down_visit :: "sym list \<Rightarrow> sym \<Rightarrow> sym list \<times> sym list \<Rightarrow> sym list \<times> sym list" where
  "trim_down_visit C b Ta =
     (case Ta of (T, ag) \<Rightarrow>
        if b \<notin> set T \<and> b \<in> set C then (b # T, ag @ [b]) else (T, ag))"

lemma trim_down_visit_fold:
  assumes "fold (trim_down_visit C) bs (T, ag) = (T', ag')"
  shows "(T' = T \<and> ag' = ag)
     \<or> ((\<exists>y\<in>set T'. y \<notin> set T) \<and> set T \<subseteq> set T' \<and> set T' \<subseteq> set T \<union> set C)"
  using assms
proof (induction bs arbitrary: T ag)
  case Nil
  then show ?case by simp
next
  case (Cons b bs)
  obtain T1 a1 where v: "trim_down_visit C b (T, ag) = (T1, a1)"
    by (cases "trim_down_visit C b (T, ag)")
  from Cons.prems v have f: "fold (trim_down_visit C) bs (T1, a1) = (T', ag')" by simp
  note 2 = Cons.IH[OF f]
  show ?case
  proof (cases "b \<notin> set T \<and> b \<in> set C")
    case True
    then have c: "T1 = b # T" using v by (simp add: trim_down_visit_def)
    have h: "b \<in> set T'" using 2 c by auto
    have "set T \<subseteq> set T'" using 2 c by auto
    moreover have "set T' \<subseteq> set T \<union> set C" using 2 c True by auto
    ultimately show ?thesis using h True by blast
  next
    case False
    then have "T1 = T \<and> a1 = ag" using v by (simp add: trim_down_visit_def split: if_splits)
    then show ?thesis using 2 by auto
  qed
qed

lemma fold_concat_eq: "fold f (concat xss) s = fold (fold f) xss s"
  by (induction xss arbitrary: s) simp_all

function trim_down :: "'w cfg \<Rightarrow> sym list \<Rightarrow> sym list \<Rightarrow> sym list \<Rightarrow> sym list" where
  "trim_down g C T [] = T"
| "trim_down g C T (x # ag) =
     (case fold (\<lambda>e. fold (trim_down_visit C) (rule_body e)) (incoming g x) (T, ag) of
        (T', ag') \<Rightarrow> trim_down g C T' ag')"
  by pat_completeness auto
termination
proof (relation "inv_image (less_than <*lex*> less_than)
        (\<lambda>(g, C, T, ag). (card (set C - set T), length ag))", goal_cases)
  case 1
  show ?case by (intro wf_inv_image wf_lex_prod wf_less_than)
next
  case (2 g C T x ag T' ag')
  then have "fold (trim_down_visit C) (concat (map rule_body (incoming g x))) (T, ag) = (T', ag')"
    by (simp add: fold_concat_eq fold_map comp_def)
  from trim_down_visit_fold[OF this] show ?case
  proof
    assume "T' = T \<and> ag' = ag"
    then show ?thesis by simp
  next
    assume a: "(\<exists>y\<in>set T'. y \<notin> set T) \<and> set T \<subseteq> set T' \<and> set T' \<subseteq> set T \<union> set C"
    then obtain y where y: "y \<in> set T'" "y \<notin> set T" by blast
    with a have yc: "y \<in> set C" by blast
    have "set C - set T' \<subset> set C - set T"
      using a y yc by blast
    then have "card (set C - set T') < card (set C - set T)"
      by (intro psubset_card_mono) auto
    then show ?thesis by simp
  qed
qed

text \<open>\<open>_trim(symbols)\<close>.\<close>

definition trim_to :: "'w::zero cfg \<Rightarrow> sym list \<Rightarrow> 'w cfg" where
  "trim_to g symbols =
     add_all (filter (\<lambda>p. rule_head p \<in> set symbols \<and> rule_w p \<noteq> 0
                          \<and> set (rule_body p) \<subseteq> set symbols) (cfg_rules g))
       (spawn g)"

definition trim :: "'w::zero cfg \<Rightarrow> bool \<Rightarrow> 'w cfg" where
  "trim g bottomup_only =
     (let C = fold (\<lambda>e C. if length (rule_body e) = 0 then List.insert (rule_head e) C else C)
                (cfg_rules g) (cfg_V g);
          C = trim_up g C C
      in if bottomup_only then trim_to g C
         else trim_to g (trim_down g C [cfg_S g] [cfg_S g]))"

definition cotrim :: "'w::zero cfg \<Rightarrow> 'w cfg" where
  "cotrim g = trim g True"

section \<open>Chomsky normal form\<close>

text \<open>
  \<open>in_cnf\<close>: the assertion on the head is checked at each rule until the first rule
  that is of none of the three forms.
\<close>

fun in_cnf_rules :: "'w cfg \<Rightarrow> 'w rule list \<Rightarrow> error + bool" where
  "in_cnf_rules g [] = Inr True"
| "in_cnf_rules g (r # rs) =
     (if rule_head r \<notin> set (cfg_N g) then Inl AssertionError
      else if length (rule_body r) = 0 \<and> rule_head r = cfg_S g then in_cnf_rules g rs
      else if length (rule_body r) = 1 \<and> is_terminal g (rule_body r ! 0) then in_cnf_rules g rs
      else if length (rule_body r) = 2
              \<and> list_all (\<lambda>y. is_nonterminal g y \<and> y \<noteq> cfg_S g) (rule_body r)
           then in_cnf_rules g rs
      else Inr False)"

definition in_cnf :: "'w cfg \<Rightarrow> error + bool" where
  "in_cnf g = in_cnf_rules g (cfg_rules g)"

text \<open>
  \<open>cnf\<close>: the chain of method calls, each applied to the result of the one before, and
  the assertion on the result. \<open>nullaryremove()\<close> and \<open>trim()\<close> take their defaults.
\<close>

definition cnf ::
  "('w \<Rightarrow> 'w) \<Rightarrow> ('w \<Rightarrow> 'w \<Rightarrow> bool) \<Rightarrow> 'w::{zero,one,plus,times} cfg \<Rightarrow> nat
     \<Rightarrow> error + ('w cfg \<times> nat)" where
  "cnf star close g c =
     bindE (separate_terminals g c) (\<lambda>(g1, c1).
       case binarize g1 c1 of (g2, c2) \<Rightarrow>
         bindE (nullaryremove close True False default_rename g2 c2) (\<lambda>(g3, c3).
           let new = trim (unaryremove star g3) False
           in bindE (in_cnf new) (\<lambda>b. if b then Inr (new, c3) else Inl AssertionError)))"

text \<open>
  The composition in the order of the specification's sentence
  \<open>cnf = separate_terminals o binarize o nullaryremove o unaryremove o trim\<close>:
  \<open>trim\<close> is applied first and \<open>separate_terminals\<close> last.
\<close>

definition cnf_spec_order ::
  "('w \<Rightarrow> 'w) \<Rightarrow> ('w \<Rightarrow> 'w \<Rightarrow> bool) \<Rightarrow> 'w::{zero,one,plus,times} cfg \<Rightarrow> nat
     \<Rightarrow> error + ('w cfg \<times> nat)" where
  "cnf_spec_order star close g c =
     bindE (nullaryremove close True False default_rename (unaryremove star (trim g False)) c)
       (\<lambda>(g3, c3). case binarize g3 c3 of (g4, c4) \<Rightarrow> separate_terminals g4 c4)"

text \<open>
  The CNF invariant in the specification's words: every rule is nullary with head \<open>S\<close>,
  or unary with a terminal body, or binary with two non-start nonterminal body symbols.
\<close>

definition cnf_form :: "'w cfg \<Rightarrow> bool" where
  "cnf_form g =
     (\<forall>r \<in> set (cfg_rules g).
        (rule_body r = [] \<and> rule_head r = cfg_S g)
        \<or> (\<exists>a. rule_body r = [a] \<and> a \<in> set (cfg_V g))
        \<or> (\<exists>Y Z. rule_body r = [Y, Z] \<and> Y \<notin> set (cfg_V g) \<and> Z \<notin> set (cfg_V g)
               \<and> Y \<noteq> cfg_S g \<and> Z \<noteq> cfg_S g))"

section \<open>The generalized left-corner transformation\<close>

text \<open>
  \<open>SlashNames._slash\<close> and \<open>_frozen\<close>: the invented symbols take the tag 0 unless the
  symbol with tag 0 is a nonterminal of the parent, and then the tag \<open>id\<close>. A terminal
  is its own frozen symbol. The terminals of the transformed grammar are the parent's.
\<close>

definition slash :: "'w cfg \<Rightarrow> int \<Rightarrow> sym \<Rightarrow> sym \<Rightarrow> sym" where
  "slash parent i X Y =
     (if Slash X Y 0 \<notin> set (cfg_N parent) then Slash X Y 0 else Slash X Y i)"

definition frozen :: "'w cfg \<Rightarrow> int \<Rightarrow> sym \<Rightarrow> sym" where
  "frozen parent i X =
     (if is_terminal parent X then X
      else if Frozen X 0 \<notin> set (cfg_N parent) then Frozen X 0 else Frozen X i)"

text \<open>
  The left-corner graph of the rules \<open>Ps\<close>, reversed: an edge from \<open>body[0]\<close> to the
  head of each rule with a body. Its reflexive transitive closure comes from the graph
  library (networkx); \<open>reach\<close> computes the nodes reachable from a node by adding the
  successors of the nodes found, once for each edge at most.
\<close>

definition lc_edges :: "'w rule list \<Rightarrow> (sym \<times> sym) list" where
  "lc_edges Ps = map (\<lambda>p. (hd (rule_body p), rule_head p)) (filter (\<lambda>p. rule_body p \<noteq> []) Ps)"

definition reach_step :: "(sym \<times> sym) list \<Rightarrow> sym list \<Rightarrow> sym list" where
  "reach_step E xs = fold (\<lambda>(a, b) ys. if a \<in> set ys then List.insert b ys else ys) E xs"

definition reach :: "(sym \<times> sym) list \<Rightarrow> sym \<Rightarrow> sym list" where
  "reach E x = ((reach_step E) ^^ length E) [x]"

text \<open>
  The useful-symbol analysis of \<open>GLCT.__init__\<close>. \<open>den2num\<close> has the keys
  \<open>N | V\<close> of the parent; reading it at another key raises \<open>KeyError\<close>, and
  \<open>den2num.get\<close> gives the empty set there.
\<close>

definition retained :: "'w cfg \<Rightarrow> 'w rule list \<Rightarrow> sym list" where
  "retained parent Ps =
     fold (\<lambda>p R. fold (\<lambda>X R. if is_nonterminal parent X then List.insert X R else R)
                     (drop (if p \<in> set Ps then 1 else 0) (rule_body p)) R)
          (cfg_rules parent) [cfg_S parent]"

definition den2num_keys :: "'w cfg \<Rightarrow> sym list" where
  "den2num_keys parent = remdups (cfg_N parent @ cfg_V parent)"

definition num_given_den :: "'w cfg \<Rightarrow> 'w rule list \<Rightarrow> bool \<Rightarrow> sym \<Rightarrow> sym list" where
  "num_given_den parent Ps flt den =
     (if flt then
        (if den \<in> set (den2num_keys parent)
         then filter (\<lambda>num. num \<in> set (retained parent Ps)) (reach (lc_edges Ps) den)
         else [])
      else cfg_N parent)"

definition useful_num :: "'w cfg \<Rightarrow> sym list \<Rightarrow> 'w rule list \<Rightarrow> bool \<Rightarrow> sym list" where
  "useful_num parent Xs Ps flt =
     (if flt then
        remdups (concat (map (\<lambda>den. filter (\<lambda>num. num \<in> set (retained parent Ps))
                                        (reach (lc_edges Ps) den)) Xs))
      else remdups (cfg_N parent @ cfg_V parent))"

definition useful_mid :: "'w cfg \<Rightarrow> sym list \<Rightarrow> 'w rule list \<Rightarrow> bool \<Rightarrow> sym list" where
  "useful_mid parent Xs Ps flt =
     (if flt then
        remdups (concat (map (\<lambda>den.
           filter (\<lambda>mid. list_ex (\<lambda>num. num \<in> set (retained parent Ps)) (reach (lc_edges Ps) mid))
                  (reach (lc_edges Ps) den)) Xs))
      else remdups (cfg_N parent @ cfg_V parent))"

text \<open>
  \<open>GLCT.__init__\<close>: the two assertions, then the rules. \<open>Xs\<close> and \<open>Ps\<close> are given as
  lists; membership of a rule in \<open>Ps\<close> is by the rules' equality.
\<close>

definition glct_rules_of ::
  "'w::{zero,one} cfg \<Rightarrow> sym list \<Rightarrow> 'w rule list \<Rightarrow> bool \<Rightarrow> int \<Rightarrow> 'w rule \<Rightarrow> 'w cfg \<Rightarrow> 'w cfg" where
  "glct_rules_of parent Xs Ps flt i p new =
     (if p \<notin> set Ps then
        add' new (rule_w p) (frozen parent i (rule_head p)) (rule_body p)
      else
        (let body0 = hd (rule_body p);
             new = fold (\<lambda>Y new. if body0 \<notin> set (useful_mid parent Xs Ps flt) then new
                         else add' new (rule_w p) (slash parent i Y body0)
                                (tl (rule_body p) @ [slash parent i Y (rule_head p)]))
                     (num_given_den parent Ps flt body0) new
         in if body0 \<notin> set Xs
            then add' new (rule_w p) (frozen parent i (rule_head p))
                   (frozen parent i body0 # tl (rule_body p))
            else new))"

definition GLCT ::
  "'w::{zero,one} cfg \<Rightarrow> sym list \<Rightarrow> 'w rule list \<Rightarrow> bool \<Rightarrow> int \<Rightarrow> error + 'w cfg" where
  "GLCT parent Xs Ps flt i =
     (if \<not> set Ps \<subseteq> set (cfg_rules parent) then Inl AssertionError
      else if \<not> list_all (\<lambda>r. length (rule_body r) > 0) Ps then Inl AssertionError
      else if flt \<and> \<not> set Xs \<subseteq> set (den2num_keys parent) then Inl KeyError
      else
        (let new = CFG (cfg_S parent) (cfg_V parent);
             new = fold (\<lambda>X new. add' new 1 (slash parent i X X) []) (useful_num parent Xs Ps flt) new;
             new = fold (glct_rules_of parent Xs Ps flt i) (cfg_rules parent) new;
             new = fold (\<lambda>Y new. add' new 1 Y [frozen parent i Y])
                     (filter (\<lambda>Y. Y \<notin> set Xs)
                        (if flt then retained parent Ps else cfg_N parent)) new;
             new = fold (\<lambda>X new. fold (\<lambda>Y new. add' new 1 Y [frozen parent i X, slash parent i Y X])
                                    (num_given_den parent Ps flt X) new)
                     (remdups Xs) new
         in Inr new))"

text \<open>
  Derivations: \<open>Yield\<close>, \<open>weight\<close>, and \<open>tree(x, *ys)\<close>, which makes the rule
  \<open>Rule(None, x, labels)\<close>: the trees of the mappings carry rules with no weight.
\<close>

fun label :: "'w deriv \<Rightarrow> sym" where
  "label (Deriv r x ys) = x"
| "label (Leaf a) = a"

fun Yield :: "'w deriv \<Rightarrow> sym list" where
  "Yield (Deriv r x ys) = concat (map Yield ys)"
| "Yield (Leaf a) = [a]"

text \<open>
  \<open>weight\<close> starts from the weight of the rule and multiplies by the weight of each child
  that is a derivation. \<open>rw\<close> reads the weight of a rule, which is absent (\<open>None\<close>) in
  the rules that \<open>tree\<close> makes; a product with \<open>None\<close> is a type error, which is the
  result \<open>None\<close> as well. A terminal has no weight.
\<close>

fun weight_with :: "('v \<Rightarrow> 'w::times option) \<Rightarrow> 'v deriv \<Rightarrow> 'w option" where
  "weight_with rw (Deriv r x ys) =
     fold (\<lambda>y W. case y of
               Deriv r' x' ys' \<Rightarrow>
                 (case W of None \<Rightarrow> None
                  | Some a \<Rightarrow> (case weight_with rw y of None \<Rightarrow> None | Some b \<Rightarrow> Some (a * b)))
             | Leaf a \<Rightarrow> W)
          ys (rw (rule_w r))"
| "weight_with rw (Leaf a) = None"

definition weight :: "'w::times deriv \<Rightarrow> 'w option" where
  "weight d = weight_with Some d"

definition weight_tree :: "'w::times option deriv \<Rightarrow> 'w option" where
  "weight_tree d = weight_with (\<lambda>w. w) d"

definition tree :: "sym \<Rightarrow> 'w option deriv list \<Rightarrow> 'w option deriv" where
  "tree x ys = Deriv (Rule None x (map label ys)) x ys"

text \<open>
  \<open>Speculation.mapping\<close>. The object is made by \<open>parent.speculate\<close> with the
  parameters of the transformation; the mapping reads its parent, \<open>Xs\<close>, \<open>Ps\<close> and
  \<open>id\<close>.
\<close>

fun frozen_name :: "'w option deriv \<Rightarrow> sym" where
  "frozen_name (Deriv r (Frozen X i) ys) = X"
| "frozen_name (Deriv r x ys) = x"
| "frozen_name (Leaf a) = a"

fun spec_mapping :: "'w cfg \<Rightarrow> sym list \<Rightarrow> 'w rule list \<Rightarrow> int \<Rightarrow> 'w deriv \<Rightarrow> error + 'w option deriv"
  and spec_mapping_list ::
    "'w cfg \<Rightarrow> sym list \<Rightarrow> 'w rule list \<Rightarrow> int \<Rightarrow> 'w deriv list \<Rightarrow> error + 'w option deriv list" where
  "spec_mapping P Xs Ps i (Leaf a) = (if is_terminal P a then Inr (Leaf a) else Inl AssertionError)"
| "spec_mapping P Xs Ps i (Deriv r x ys) =
     (if r \<notin> set Ps then
        bindE (spec_mapping_list P Xs Ps i ys) (\<lambda>rest.
          if x \<in> set Xs
          then Inr (tree x [tree (frozen P i x) rest, tree (slash P i x x) []])
          else Inr (tree x [tree (frozen P i x) rest]))
      else
        (case ys of
           [] \<Rightarrow> Inl IndexError
         | y # ys' \<Rightarrow>
            bindE (spec_mapping P Xs Ps i y) (\<lambda>dd0.
              let dd = (case dd0 of
                          Leaf ot \<Rightarrow> if ot \<in> set Xs then tree ot [Leaf ot, tree (slash P i ot ot) []]
                                    else tree ot [Leaf ot]
                        | Deriv r' x' ys'' \<Rightarrow> dd0)
              in (case dd of
                    Deriv r' x' [ot] \<Rightarrow>
                      bindE (spec_mapping_list P Xs Ps i ys') (\<lambda>rest.
                        if x \<in> set Xs
                        then Inr (tree x [tree (frozen P i x) (ot # rest), tree (slash P i x x) []])
                        else Inr (tree x [tree (frozen P i x) (ot # rest)]))
                  | Deriv r' x' [ot, s] \<Rightarrow>
                      bindE (spec_mapping_list P Xs Ps i ys') (\<lambda>rest.
                        Inr (tree x [ot, tree (slash P i x (frozen_name ot)) (s # rest)]))
                  | _ \<Rightarrow> Inl ValueError))))"
| "spec_mapping_list P Xs Ps i [] = Inr []"
| "spec_mapping_list P Xs Ps i (y # ys) =
     bindE (spec_mapping P Xs Ps i y) (\<lambda>t.
       bindE (spec_mapping_list P Xs Ps i ys) (\<lambda>ts. Inr (t # ts)))"

text \<open>
  \<open>GLCT._mapping\<close>, the transpose of the slash spines. \<open>transpose_spine\<close> is the
  \<open>while\<close> loop from the node with symbol \<open>x\<close> and children \<open>ys\<close>: it returns the lists
  \<open>spine\<close> and \<open>rests\<close>. \<open>transpose_build\<close> is the \<open>for\<close> loop over
  \<open>zip(rests, spine)\<close>; reading \<open>s.Y\<close> of a symbol that is not a slash symbol raises.
\<close>

fun transpose :: "'w cfg \<Rightarrow> int \<Rightarrow> 'w option deriv \<Rightarrow> error + 'w option deriv"
  and transpose_list :: "'w cfg \<Rightarrow> int \<Rightarrow> 'w option deriv list \<Rightarrow> error + 'w option deriv list"
  and transpose_spine ::
    "'w cfg \<Rightarrow> int \<Rightarrow> sym \<Rightarrow> 'w option deriv list \<Rightarrow> error + (sym list \<times> 'w option deriv list list)"
  where
  "transpose P i (Leaf a) = Inr (Leaf a)"
| "transpose P i (Deriv r x ys) =
     (case x of
        Slash num Z j \<Rightarrow>
          bindE (transpose_spine P i x ys) (\<lambda>(spine, rests).
            fold (\<lambda>(rest, s) new.
                    bindE new (\<lambda>new.
                      case s of Slash Y Z' j' \<Rightarrow> Inr (tree (slash P i num Y) (rest @ [new]))
                              | _ \<Rightarrow> Inl AttributeError))
                 (zip rests spine) (Inr (tree (slash P i num num) [])))
      | _ \<Rightarrow> bindE (transpose_list P i ys) (\<lambda>ys'. Inr (tree x ys')))"
| "transpose_list P i [] = Inr []"
| "transpose_list P i (y # ys) =
     bindE (transpose P i y) (\<lambda>t. bindE (transpose_list P i ys) (\<lambda>ts. Inr (t # ts)))"
| "transpose_spine P i x [] = Inr ([], [])"
| "transpose_spine P i x (y # rest) =
     (if \<not> isSlash x then Inl AssertionError
      else (case y of
              Leaf a \<Rightarrow> Inl AttributeError
            | Deriv r' x' ys' \<Rightarrow>
                bindE (transpose_list P i rest) (\<lambda>rest'.
                  bindE (transpose_spine P i x' ys') (\<lambda>(sp, rs). Inr (x' # sp, rest' # rs)))))"

text \<open>\<open>GLCT.mapping\<close>: the speculation mapping, then the transpose.\<close>

definition glct_mapping ::
  "'w cfg \<Rightarrow> sym list \<Rightarrow> 'w rule list \<Rightarrow> int \<Rightarrow> 'w deriv \<Rightarrow> error + 'w option deriv" where
  "glct_mapping P Xs Ps i d = bindE (spec_mapping P Xs Ps i d) (transpose P i)"

section \<open>Derivations of a grammar and the trees of the mappings\<close>

text \<open>
  A derivation of a grammar, as \<open>derivations\<close> enumerates them: a terminal, or a rule of
  the grammar at a nonterminal with a derivation for each body symbol.
\<close>

fun is_deriv :: "'w cfg \<Rightarrow> 'w deriv \<Rightarrow> bool" where
  "is_deriv g (Leaf a) = is_terminal g a"
| "is_deriv g (Deriv r x ys) =
     (\<not> is_terminal g x \<and> r \<in> set (cfg_rules g) \<and> rule_head r = x
      \<and> rule_body r = map label ys \<and> (\<forall>y \<in> set ys. is_deriv g y))"

text \<open>
  \<open>Derivation.__eq__\<close> compares the symbol and the children and ignores the rule: two
  derivations are equal when they have the same skeleton.
\<close>

datatype skeleton = SLeaf sym | SNode sym "skeleton list"

fun skel :: "'v deriv \<Rightarrow> skeleton" where
  "skel (Leaf a) = SLeaf a"
| "skel (Deriv r x ys) = SNode x (map skel ys)"

definition deriv_eq :: "'v deriv \<Rightarrow> 'u deriv \<Rightarrow> bool" where
  "deriv_eq d1 d2 = (skel d1 = skel d2)"

text \<open>
  A tree is (equal to) a derivation of a grammar when each of its nodes has the head and
  body of a rule of the grammar, at a nonterminal, and its leaves are terminals.
\<close>

definition has_rule :: "'w cfg \<Rightarrow> sym \<Rightarrow> sym list \<Rightarrow> bool" where
  "has_rule g x body = (\<exists>r \<in> set (cfg_rules g). rule_head r = x \<and> rule_body r = body)"

fun tree_valid :: "'w cfg \<Rightarrow> 'v deriv \<Rightarrow> bool" where
  "tree_valid g (Leaf a) = is_terminal g a"
| "tree_valid g (Deriv r x ys) =
     (\<not> is_terminal g x \<and> has_rule g x (map label ys) \<and> (\<forall>y \<in> set ys. tree_valid g y))"

text \<open>
  The shape of the trees that the speculation mapping makes: \<open>spec_top Y t\<close> for the
  image of a derivation of \<open>Y\<close>, \<open>spec_fz X F\<close> for a frozen subtree of \<open>X\<close> (a terminal
  is its own), \<open>spec_ch Y X s\<close> for the slash subtree of \<open>Y\<close> over \<open>X\<close>.
\<close>

inductive spec_top :: "'w cfg \<Rightarrow> sym list \<Rightarrow> 'w rule list \<Rightarrow> int \<Rightarrow> sym \<Rightarrow> 'w option deriv \<Rightarrow> bool"
  and spec_fz :: "'w cfg \<Rightarrow> sym list \<Rightarrow> 'w rule list \<Rightarrow> int \<Rightarrow> sym \<Rightarrow> 'w option deriv \<Rightarrow> bool"
  and spec_ch :: "'w cfg \<Rightarrow> sym list \<Rightarrow> 'w rule list \<Rightarrow> int \<Rightarrow> sym \<Rightarrow> sym \<Rightarrow> 'w option deriv \<Rightarrow> bool"
  for P :: "'w cfg" and Xs :: "sym list" and Ps :: "'w rule list" and i :: int
  where
  top_leaf: "is_terminal P a \<Longrightarrow> spec_top P Xs Ps i a (Leaf a)"
| top_fz: "spec_fz P Xs Ps i Y F \<Longrightarrow> \<not> is_terminal P Y \<Longrightarrow> Y \<notin> set Xs
     \<Longrightarrow> spec_top P Xs Ps i Y (tree Y [F])"
| top_ch: "spec_fz P Xs Ps i X F \<Longrightarrow> X \<in> set Xs \<Longrightarrow> spec_ch P Xs Ps i Y X s \<Longrightarrow> \<not> is_terminal P Y
     \<Longrightarrow> spec_top P Xs Ps i Y (tree Y [F, s])"
| fz_leaf: "is_terminal P a \<Longrightarrow> spec_fz P Xs Ps i a (Leaf a)"
| fz_base: "p \<in> set (cfg_rules P) \<Longrightarrow> p \<notin> set Ps \<Longrightarrow> rule_head p = Y \<Longrightarrow> \<not> is_terminal P Y
     \<Longrightarrow> list_all2 (spec_top P Xs Ps i) (rule_body p) cs
     \<Longrightarrow> spec_fz P Xs Ps i Y (tree (frozen P i Y) cs)"
| fz_rec: "p \<in> set (cfg_rules P) \<Longrightarrow> p \<in> set Ps \<Longrightarrow> rule_head p = Y \<Longrightarrow> \<not> is_terminal P Y
     \<Longrightarrow> rule_body p = b0 # bs \<Longrightarrow> b0 \<notin> set Xs \<Longrightarrow> spec_fz P Xs Ps i b0 F0
     \<Longrightarrow> list_all2 (spec_top P Xs Ps i) bs cs
     \<Longrightarrow> spec_fz P Xs Ps i Y (tree (frozen P i Y) (F0 # cs))"
| ch_base: "X \<in> set Xs \<Longrightarrow> spec_ch P Xs Ps i X X (tree (slash P i X X) [])"
| ch_step: "p \<in> set (cfg_rules P) \<Longrightarrow> p \<in> set Ps \<Longrightarrow> rule_head p = Y \<Longrightarrow> \<not> is_terminal P Y
     \<Longrightarrow> rule_body p = Y1 # bs \<Longrightarrow> spec_ch P Xs Ps i Y1 X s
     \<Longrightarrow> list_all2 (spec_top P Xs Ps i) bs cs
     \<Longrightarrow> spec_ch P Xs Ps i Y X (tree (slash P i Y X) (s # cs))"

section \<open>A semiring that is not commutative\<close>

text \<open>
  The relations on a three-element set, with union as addition and composition as
  multiplication: a semiring whose multiplication is not commutative, for evaluating the
  closure on concrete charts. \<open>rstar3\<close> is the reflexive transitive closure;
  \<open>star3\<close> adds, at one relation, a part that only unfolds on the left.
\<close>

datatype rel3 = Rel (unRel: "(Enum.finite_3 \<times> Enum.finite_3) set")

instantiation rel3 :: semiring_1
begin

definition zero_rel3 :: rel3 where "zero_rel3 = Rel {}"
definition one_rel3 :: rel3 where "one_rel3 = Rel Id"
definition plus_rel3 :: "rel3 \<Rightarrow> rel3 \<Rightarrow> rel3" where "plus_rel3 a b = Rel (unRel a \<union> unRel b)"
definition times_rel3 :: "rel3 \<Rightarrow> rel3 \<Rightarrow> rel3" where "times_rel3 a b = Rel (unRel a O unRel b)"

instance
proof
  fix a b c :: rel3
  show "a + b + c = a + (b + c)" by (simp add: plus_rel3_def Un_assoc)
  show "a + b = b + a" by (simp add: plus_rel3_def Un_commute)
  show "0 + a = a" by (simp add: plus_rel3_def zero_rel3_def)
  show "a * b * c = a * (b * c)" by (simp add: times_rel3_def O_assoc)
  show "1 * a = a" by (simp add: times_rel3_def one_rel3_def)
  show "a * 1 = a" by (simp add: times_rel3_def one_rel3_def)
  show "(a + b) * c = a * c + b * c" by (simp add: times_rel3_def plus_rel3_def relcomp_distrib2)
  show "a * (b + c) = a * b + a * c" by (simp add: times_rel3_def plus_rel3_def relcomp_distrib)
  show "0 * a = 0" by (simp add: times_rel3_def zero_rel3_def)
  show "a * 0 = 0" by (simp add: times_rel3_def zero_rel3_def)
  show "(0::rel3) \<noteq> 1" by (auto simp: zero_rel3_def one_rel3_def)
qed

end

definition star3 :: "rel3 \<Rightarrow> rel3" where
  "star3 a = Rel ((unRel a)\<^sup>* \<union>
      (if unRel a = {(finite_3.a\<^sub>1, finite_3.a\<^sub>1), (finite_3.a\<^sub>2, finite_3.a\<^sub>3)} then {(finite_3.a\<^sub>1, finite_3.a\<^sub>2)} else {}))"

definition rstar3 :: "rel3 \<Rightarrow> rel3" where
  "rstar3 a = Rel ((unRel a)\<^sup>*)"

section \<open>Basic facts about adding rules\<close>

lemma add'_simps:
  "cfg_S (add' g w X b) = cfg_S g"
  "cfg_V (add' g w X b) = cfg_V g"
  "cfg_rules (add' g w X b) = (if w = 0 then cfg_rules g else cfg_rules g @ [Rule w X b])"
  "set (cfg_N (add' g w X b)) = (if w = 0 then set (cfg_N g) else insert X (set (cfg_N g)))"
  by (simp_all add: add'_def add_def)

lemma add_rule_simps:
  "cfg_S (add_rule r g) = cfg_S g"
  "cfg_V (add_rule r g) = cfg_V g"
  "cfg_rules (add_rule r g) = (if rule_w r = 0 then cfg_rules g else cfg_rules g @ [r])"
  "set (cfg_N (add_rule r g)) = (if rule_w r = 0 then set (cfg_N g) else insert (rule_head r) (set (cfg_N g)))"
  by (simp_all add: add_rule_def add'_simps Rule_def)

lemma add_all_simps:
  "cfg_S (add_all rs g) = cfg_S g"
  "cfg_V (add_all rs g) = cfg_V g"
  "cfg_rules (add_all rs g) = cfg_rules g @ filter (\<lambda>r. rule_w r \<noteq> 0) rs"
  "set (cfg_N (add_all rs g)) = set (cfg_N g) \<union> rule_head ` {r \<in> set rs. rule_w r \<noteq> 0}"
  unfolding add_all_def
  by (induction rs arbitrary: g; auto simp: add_rule_simps)+

lemma CFG_simps:
  "cfg_S (CFG S V) = S" "cfg_V (CFG S V) = V" "cfg_N (CFG S V) = [S]" "cfg_rules (CFG S V) = []"
  by (simp_all add: CFG_def)

lemma spawn_simps:
  "cfg_S (spawn g) = cfg_S g" "cfg_V (spawn g) = cfg_V g"
  "cfg_N (spawn g) = [cfg_S g]" "cfg_rules (spawn g) = []"
  "cfg_S (spawn_S g S) = S" "cfg_V (spawn_S g S) = cfg_V g"
  "cfg_N (spawn_S g S) = [S]" "cfg_rules (spawn_S g S) = []"
  "cfg_S (spawn_V g V) = cfg_S g" "cfg_V (spawn_V g V) = V"
  "cfg_N (spawn_V g V) = [cfg_S g]" "cfg_rules (spawn_V g V) = []"
  by (simp_all add: spawn_def spawn_S_def spawn_V_def CFG_simps)

lemma gen_nt_name_neq: "gen_nt_name (str_sym S) i \<noteq> S"
proof (cases S)
  case (Str s)
  have "length (s @ ''@'' @ str_nat i) \<noteq> length s" by simp
  then have "s @ ''@'' @ str_nat i \<noteq> s" by metis
  then show ?thesis using Str by (simp add: gen_nt_name_def)
qed (simp_all add: gen_nt_name_def)

section \<open>Invariants of the loop of separate_terminals\<close>

lemma preterminal_inv:
  assumes "preterminal (new, pt, c) x = (Some r, (new', pt', c'))"
    and "\<forall>k>c0. gen_nt_name [] k \<notin> set V" and "c0 \<le> c"
    and "\<forall>x r. pt x = Some r \<longrightarrow> rule_head r \<notin> set V"
  shows "rule_head r \<notin> set V \<and> c0 \<le> c' \<and> (\<forall>x r. pt' x = Some r \<longrightarrow> rule_head r \<notin> set V)
     \<and> cfg_V new' = cfg_V new
     \<and> (cfg_rules new' = cfg_rules new \<or> (\<exists>nm. cfg_rules new' = cfg_rules new @ [Rule 1 nm [x]]))"
proof (cases "pt x")
  case None
  have f: "gen_nt_name [] (Suc c) \<notin> set V" using assms(2,3) by auto
  show ?thesis using assms None f
    by (auto simp: preterminal_def gen_nt_def add_def Rule_def split: if_splits)
next
  case (Some y)
  then show ?thesis using assms by (auto simp: preterminal_def)
qed

lemma st_body_inv:
  assumes "st_body V (new, pt, c) ys = Inr (zs, (new', pt', c'))"
    and "\<forall>k>c0. gen_nt_name [] k \<notin> set V" and "c0 \<le> c"
    and "\<forall>x r. pt x = Some r \<longrightarrow> rule_head r \<notin> set V"
  shows "set zs \<inter> set V = {} \<and> c0 \<le> c' \<and> (\<forall>x r. pt' x = Some r \<longrightarrow> rule_head r \<notin> set V)
     \<and> cfg_V new' = cfg_V new
     \<and> (\<forall>r \<in> set (cfg_rules new'). r \<in> set (cfg_rules new) \<or> (\<exists>nm x. r = Rule 1 nm [x]))"
  using assms
proof (induction ys arbitrary: new pt c zs)
  case Nil
  then show ?case by auto
next
  case (Cons y ys)
  show ?case
  proof (cases "y \<in> set V")
    case False
    then obtain zs' where z: "st_body V (new, pt, c) ys = Inr (zs', (new', pt', c'))" "zs = y # zs'"
      using Cons.prems(1) by (auto simp: bindE_def split: sum.splits)
    from Cons.IH[OF z(1) Cons.prems(2,3,4)] False z(2) show ?thesis by auto
  next
    case True
    then obtain r new1 pt1 c1 zs' where p: "preterminal (new, pt, c) y = (Some r, (new1, pt1, c1))"
      and z: "st_body V (new1, pt1, c1) ys = Inr (zs', (new', pt', c'))" "zs = rule_head r # zs'"
      using Cons.prems(1) by (auto simp: bindE_def split: sum.splits prod.splits option.splits)
    note a = preterminal_inv[OF p Cons.prems(2,3,4)]
    from a have a1: "c0 \<le> c1" and a2: "\<forall>x r. pt1 x = Some r \<longrightarrow> rule_head r \<notin> set V" by auto
    note b = Cons.IH[OF z(1) Cons.prems(2) a1 a2]
    show ?thesis using a b z(2) by auto
  qed
qed


lemma st_rule_inv:
  assumes "st_rule g (new, pt, c) r = Inr (new', pt', c')"
    and "r \<in> set (cfg_rules g)"
    and "\<forall>k>c0. gen_nt_name [] k \<notin> set (cfg_V g)" and "c0 \<le> c"
    and "\<forall>x r. pt x = Some r \<longrightarrow> rule_head r \<notin> set (cfg_V g)"
    and "cfg_V new = cfg_V g"
    and "\<forall>r \<in> set (cfg_rules new). \<forall>y \<in> set (rule_body r). y \<in> set (cfg_V g) \<longrightarrow>
           rule_body r = [y] \<and> (r \<in> set (cfg_rules g) \<or> rule_w r = 1)"
  shows "c0 \<le> c' \<and> (\<forall>x r. pt' x = Some r \<longrightarrow> rule_head r \<notin> set (cfg_V g))
     \<and> cfg_V new' = cfg_V g
     \<and> (\<forall>r \<in> set (cfg_rules new'). \<forall>y \<in> set (rule_body r). y \<in> set (cfg_V g) \<longrightarrow>
           rule_body r = [y] \<and> (r \<in> set (cfg_rules g) \<or> rule_w r = 1))"
proof (cases "length (rule_body r) = 1 \<and> is_terminal g (rule_body r ! 0)")
  case True
  then have n: "new' = add_rule r new" "pt' = pt" "c' = c"
    using assms(1) by (auto simp: st_rule_def)
  from True obtain t where t: "rule_body r = [t]"
    by (cases "rule_body r") auto
  show ?thesis using assms(2-) n t by (auto simp: add_rule_simps)
next
  case False
  then obtain zs new1 where b: "st_body (cfg_V g) (new, pt, c) (rule_body r) = Inr (zs, (new1, pt', c'))"
    and n: "new' = add' new1 (rule_w r) (rule_head r) zs"
    using assms(1) by (auto simp: st_rule_def bindE_def split: sum.splits)
  note a = st_body_inv[OF b assms(3,4,5)]
  have "\<forall>r \<in> set (cfg_rules new1). \<forall>y \<in> set (rule_body r). y \<in> set (cfg_V g) \<longrightarrow>
           rule_body r = [y] \<and> (r \<in> set (cfg_rules g) \<or> rule_w r = 1)"
  proof
    fix q assume q: "q \<in> set (cfg_rules new1)"
    from a q have "q \<in> set (cfg_rules new) \<or> (\<exists>nm x. q = Rule 1 nm [x])" by blast
    then show "\<forall>y \<in> set (rule_body q). y \<in> set (cfg_V g) \<longrightarrow>
           rule_body q = [y] \<and> (q \<in> set (cfg_rules g) \<or> rule_w q = 1)"
      using assms(7) by (auto simp: Rule_def)
  qed
  moreover have "set zs \<inter> set (cfg_V g) = {}" using a by simp
  ultimately show ?thesis using a n assms(6)
    by (auto simp: add'_simps Rule_def)
qed

lemma st_rules_inv:
  assumes "st_rules g (new, pt, c) rs = Inr (new', pt', c')"
    and "set rs \<subseteq> set (cfg_rules g)"
    and "\<forall>k>c0. gen_nt_name [] k \<notin> set (cfg_V g)" and "c0 \<le> c"
    and "\<forall>x r. pt x = Some r \<longrightarrow> rule_head r \<notin> set (cfg_V g)"
    and "cfg_V new = cfg_V g"
    and "\<forall>r \<in> set (cfg_rules new). \<forall>y \<in> set (rule_body r). y \<in> set (cfg_V g) \<longrightarrow>
           rule_body r = [y] \<and> (r \<in> set (cfg_rules g) \<or> rule_w r = 1)"
  shows "cfg_V new' = cfg_V g
     \<and> (\<forall>r \<in> set (cfg_rules new'). \<forall>y \<in> set (rule_body r). y \<in> set (cfg_V g) \<longrightarrow>
           rule_body r = [y] \<and> (r \<in> set (cfg_rules g) \<or> rule_w r = 1))"
  using assms
proof (induction rs arbitrary: new pt c)
  case Nil
  then show ?case by simp
next
  case (Cons r rs)
  from Cons.prems(1) obtain new1 pt1 c1 where s: "st_rule g (new, pt, c) r = Inr (new1, pt1, c1)"
    and t: "st_rules g (new1, pt1, c1) rs = Inr (new', pt', c')"
    by (auto simp: bindE_def split: sum.splits)
  have r: "r \<in> set (cfg_rules g)" and rs: "set rs \<subseteq> set (cfg_rules g)" using Cons.prems(2) by auto
  note a = st_rule_inv[OF s r Cons.prems(3,4,5,6,7)]
  from a have a1: "c0 \<le> c1"
    and a2: "\<forall>x r. pt1 x = Some r \<longrightarrow> rule_head r \<notin> set (cfg_V g)"
    and a3: "cfg_V new1 = cfg_V g"
    and a4: "\<forall>r \<in> set (cfg_rules new1). \<forall>y \<in> set (rule_body r). y \<in> set (cfg_V g) \<longrightarrow>
           rule_body r = [y] \<and> (r \<in> set (cfg_rules g) \<or> rule_w r = 1)"
    by blast+
  show ?case by (rule Cons.IH[OF t rs Cons.prems(3) a1 a2 a3 a4])
qed

lemma preterminal_returns:
  assumes "(1::'w::{zero,one}) \<noteq> 0"
  shows "fst (preterminal ((new, pt, c) :: 'w st_state) x) \<noteq> None"
  using assms by (cases "pt x") (simp_all add: preterminal_def add_def gen_nt_def)

lemma st_body_returns:
  assumes "(1::'w::{zero,one}) \<noteq> 0"
  shows "\<exists>zs st'. st_body V (st :: 'w st_state) ys = Inr (zs, st')"
proof (induction ys arbitrary: st)
  case Nil
  show ?case by (intro exI) (rule st_body.simps(1))
next
  case (Cons y ys)
  show ?case
  proof (cases "y \<in> set V")
    case False
    then show ?thesis using Cons[of st] by (auto simp: bindE_def)
  next
    case True
    obtain o' st1 where p: "preterminal st y = (o', st1)" by (cases "preterminal st y") auto
    have "fst (preterminal st y) \<noteq> None"
      using preterminal_returns[OF assms] by (cases st rule: prod_cases3) simp
    then obtain r where "o' = Some r" using p by auto
    then show ?thesis using True p Cons[of st1] by (auto simp: bindE_def)
  qed
qed

lemma st_rules_returns:
  assumes "(1::'w::{zero,one}) \<noteq> 0"
  shows "\<exists>st'. st_rules g (st :: 'w st_state) rs = Inr st'"
proof (induction rs arbitrary: st)
  case Nil
  show ?case by (intro exI) (rule st_rules.simps(1))
next
  case (Cons r rs)
  have "\<exists>st1. st_rule g st r = Inr st1"
    using st_body_returns[OF assms, of "cfg_V g" st "rule_body r"]
    by (cases st rule: prod_cases3) (auto simp: st_rule_def bindE_def)
  then show ?case using Cons by (auto simp: bindE_def)
qed

section \<open>The nullary rules that pushing null weights leaves\<close>

lemma nullary_rules_add':
  "nullary_rules (add' g w X b) = nullary_rules g @ (if w \<noteq> 0 \<and> b = [] then [Rule w X []] else [])"
  by (auto simp: nullary_rules_def add'_simps Rule_def)

lemma nullary_rules_spawn: "nullary_rules (spawn g) = []"
  by (simp add: nullary_rules_def spawn_simps)

lemma pnw_rule_simps:
  "cfg_S (pnw_rule nw f r rcfg) = cfg_S rcfg"
  "nullary_rules (pnw_rule nw f r rcfg) = nullary_rules rcfg"
proof -
  have "cfg_S (fold (\<lambda>B rcfg. case pnw_mask nw f r B of (v, new_body) \<Rightarrow>
                   if length new_body > 0 then add' rcfg v (f (rule_head r)) new_body else rcfg) Bs rcfg) = cfg_S rcfg
     \<and> nullary_rules (fold (\<lambda>B rcfg. case pnw_mask nw f r B of (v, new_body) \<Rightarrow>
                   if length new_body > 0 then add' rcfg v (f (rule_head r)) new_body else rcfg) Bs rcfg) = nullary_rules rcfg"
    for Bs
    by (induction Bs arbitrary: rcfg) (auto simp: add'_simps nullary_rules_add' split: prod.splits)
  then show "cfg_S (pnw_rule nw f r rcfg) = cfg_S rcfg"
    "nullary_rules (pnw_rule nw f r rcfg) = nullary_rules rcfg"
    by (simp_all add: pnw_rule_def)
qed

lemma fold_pnw_rule_simps:
  "cfg_S (fold (pnw_rule nw f) rs rcfg) = cfg_S rcfg"
  "nullary_rules (fold (pnw_rule nw f) rs rcfg) = nullary_rules rcfg"
  by (induction rs arbitrary: rcfg; simp add: pnw_rule_simps)+

lemma pnw_recovery_simps:
  "cfg_S (pnw_recovery nw f x rcfg) = cfg_S rcfg"
  "nullary_rules (pnw_recovery nw f x rcfg) =
     nullary_rules rcfg @ (if f x \<noteq> x \<and> chart_get nw x \<noteq> 0 then [Rule (chart_get nw x) x []] else [])"
  by (auto simp: pnw_recovery_def add'_simps nullary_rules_add')

lemma fold_pnw_recovery_simps:
  "cfg_S (fold (pnw_recovery nw f) xs rcfg) = cfg_S rcfg"
  "nullary_rules (fold (pnw_recovery nw f) xs rcfg) =
     nullary_rules rcfg @ map (\<lambda>x. Rule (chart_get nw x) x [])
        (filter (\<lambda>x. f x \<noteq> x \<and> chart_get nw x \<noteq> 0) xs)"
  by (induction xs arbitrary: rcfg; simp add: pnw_recovery_simps)+

lemma push_null_weights_nullary:
  assumes "push_null_weights g nw recovery rename = Inr g'"
  shows "cfg_S g' = cfg_S g"
    and "nullary_rules g' =
      (if chart_get nw (cfg_S g) = 0 then [] else [Rule (chart_get nw (cfg_S g)) (cfg_S g) []])
      @ (if recovery then map (\<lambda>x. Rule (chart_get nw x) x [])
           (filter (\<lambda>x. pnw_f g nw rename x \<noteq> x \<and> chart_get nw x \<noteq> 0) (cfg_N g)) else [])"
  using assms
  by (auto simp: push_null_weights_def Let_def fold_pnw_rule_simps fold_pnw_recovery_simps
      nullary_rules_add' nullary_rules_spawn spawn_simps add'_simps(1) split: if_splits)

lemma push_null_weights_returns:
  "(\<exists>g'. push_null_weights g nw recovery rename = Inr g') \<longleftrightarrow> cfg_S g \<notin> body_syms g"
  by (auto simp: push_null_weights_def Let_def)

section \<open>The invariant of the closure\<close>

lemma chart_get_set:
  "chart_get (chart_set ch k v) k' = (if k' = k then v else chart_get ch k')"
  by (simp add: chart_get_def chart_set_def update_conv' delete_conv')

lemma chart_get_Nil: "chart_get [] k = 0"
  by (simp add: chart_get_def)

lemma chart_get_add:
  "chart_get (chart_add ch k v) k' = (if k' = k then chart_get ch k + v else chart_get ch k')"
  by (simp add: chart_add_def chart_get_set)

lemma chart_get_fold_row:
  "chart_get (fold (\<lambda>k V. chart_set V (i, k) (f i k)) N V) (a, b) =
     (if a = i \<and> b \<in> set N then f i b else chart_get V (a, b))"
  by (induction N arbitrary: V rule: rev_induct) (auto simp: chart_get_set)

lemma chart_get_fold_rows:
  "chart_get (fold (\<lambda>i V. fold (\<lambda>k V. chart_set V (i, k) (f i k)) N V) M V) (a, b) =
     (if a \<in> set M \<and> b \<in> set N then f a b else chart_get V (a, b))"
  by (induction M arbitrary: V rule: rev_induct) (auto simp: chart_get_fold_row)

lemma lehmann_step_get:
  assumes "i \<in> set N" "k \<in> set N"
  shows "chart_get (fst (lehmann_step star N j (V, U))) (i, k) =
     chart_get V (i, k) + chart_get V (i, j) * star (chart_get V (j, j)) * chart_get V (j, k)"
  using assms by (simp add: lehmann_step_def Let_def chart_get_fold_rows)

lemma chart_get_fold_diag:
  "distinct N \<Longrightarrow> chart_get (fold (\<lambda>i V. chart_add V (i, i) (1::'w::semiring_1)) N V) (a, b) =
     (if a = b \<and> a \<in> set N then chart_get V (a, b) + 1 else chart_get V (a, b))"
  by (induction N arbitrary: V rule: rev_induct) (auto simp: chart_get_add)


lemma lehmann_step_inv:
  fixes star :: "'w::semiring_1 \<Rightarrow> 'w"
  assumes ax: "\<forall>x. star x = 1 + star x * x"
    and inv: "\<forall>i\<in>set N. \<forall>k\<in>set N. chart_get V (i, k) =
                chart_get W (i, k) + (\<Sum>j\<in>P. chart_get V (i, j) * chart_get W (j, k))"
    and p: "p \<in> set N" "p \<notin> P" and P: "P \<subseteq> set N"
    and i: "i \<in> set N" and k: "k \<in> set N"
  shows "chart_get (fst (lehmann_step star N p (V, U))) (i, k) =
           chart_get W (i, k)
           + (\<Sum>j\<in>insert p P. chart_get (fst (lehmann_step star N p (V, U))) (i, j) * chart_get W (j, k))"
proof -
  define a where "a = (\<lambda>i j. chart_get V (i, j))"
  define w where "w = (\<lambda>i j. chart_get W (i, j))"
  define s where "s = star (a p p)"
  have fin: "finite P" using P by (rule finite_subset) simp
  have s: "s = 1 + s * a p p" unfolding s_def using ax by blast
  have inv': "a i' k' = w i' k' + (\<Sum>j\<in>P. a i' j * w j k')" if "i' \<in> set N" "k' \<in> set N" for i' k'
    using inv that by (simp add: a_def w_def)
  have step: "chart_get (fst (lehmann_step star N p (V, U))) (i, j) = a i j + a i p * s * a p j"
    if "j \<in> set N" for j
    using lehmann_step_get[OF i that, of star p V U] by (simp add: a_def s_def)
  have "(\<Sum>j\<in>insert p P. chart_get (fst (lehmann_step star N p (V, U))) (i, j) * chart_get W (j, k))
      = (\<Sum>j\<in>insert p P. (a i j + a i p * s * a p j) * w j k)"
    using p(1) P by (intro sum.cong) (auto simp: step w_def)
  also have "\<dots> = (a i p + a i p * s * a p p) * w p k + (\<Sum>j\<in>P. (a i j + a i p * s * a p j) * w j k)"
    using fin p(2) by simp
  also have "a i p + a i p * s * a p p = a i p * (1 + s * a p p)"
    by (simp add: distrib_left mult.assoc)
  also have "\<dots> = a i p * s" using s by simp
  also have "(\<Sum>j\<in>P. (a i j + a i p * s * a p j) * w j k)
      = (\<Sum>j\<in>P. a i j * w j k) + a i p * s * (\<Sum>j\<in>P. a p j * w j k)"
    by (simp add: distrib_right sum.distrib sum_distrib_left mult.assoc)
  finally have sum: "(\<Sum>j\<in>insert p P. chart_get (fst (lehmann_step star N p (V, U))) (i, j) * chart_get W (j, k))
      = a i p * s * w p k + ((\<Sum>j\<in>P. a i j * w j k) + a i p * s * (\<Sum>j\<in>P. a p j * w j k))" .
  have "chart_get (fst (lehmann_step star N p (V, U))) (i, k) = a i k + a i p * s * a p k"
    using step[OF k] .
  also have "\<dots> = (w i k + (\<Sum>j\<in>P. a i j * w j k)) + a i p * s * (w p k + (\<Sum>j\<in>P. a p j * w j k))"
    using inv'[OF i k] inv'[OF p(1) k] by simp
  also have "\<dots> = w i k + (a i p * s * w p k + ((\<Sum>j\<in>P. a i j * w j k) + a i p * s * (\<Sum>j\<in>P. a p j * w j k)))"
    by (simp add: distrib_left add.assoc add.left_commute)
  finally show ?thesis unfolding sum by (simp add: w_def)
qed

lemma lehmann_fold_inv:
  fixes star :: "'w::semiring_1 \<Rightarrow> 'w"
  assumes ax: "\<forall>x. star x = 1 + star x * x"
  shows "distinct (ps @ qs) \<Longrightarrow> set (ps @ qs) \<subseteq> set N \<Longrightarrow>
    (\<forall>i\<in>set N. \<forall>k\<in>set N. chart_get (fst VU) (i, k) =
                chart_get W (i, k) + (\<Sum>j\<in>set ps. chart_get (fst VU) (i, j) * chart_get W (j, k))) \<Longrightarrow>
    (\<forall>i\<in>set N. \<forall>k\<in>set N. chart_get (fst (fold (lehmann_step star N) qs VU)) (i, k) =
                chart_get W (i, k)
                + (\<Sum>j\<in>set (ps @ qs). chart_get (fst (fold (lehmann_step star N) qs VU)) (i, j) * chart_get W (j, k)))"
proof (induction qs arbitrary: ps VU)
  case Nil
  then show ?case by simp
next
  case (Cons q qs)
  obtain V U where VU: "VU = (V, U)" by (cases VU)
  have d: "distinct ((ps @ [q]) @ qs)" and sub: "set ((ps @ [q]) @ qs) \<subseteq> set N"
    using Cons.prems(1,2) by auto
  have q: "q \<in> set N" "q \<notin> set ps" and P: "set ps \<subseteq> set N"
    using Cons.prems(1,2) by auto
  have inv: "\<forall>i\<in>set N. \<forall>k\<in>set N. chart_get V (i, k) =
                chart_get W (i, k) + (\<Sum>j\<in>set ps. chart_get V (i, j) * chart_get W (j, k))"
    using Cons.prems(3) VU by simp
  have "\<forall>i\<in>set N. \<forall>k\<in>set N. chart_get (fst (lehmann_step star N q VU)) (i, k) =
          chart_get W (i, k)
          + (\<Sum>j\<in>set (ps @ [q]). chart_get (fst (lehmann_step star N q VU)) (i, j) * chart_get W (j, k))"
    using lehmann_step_inv[OF ax inv q P] VU by simp
  from Cons.IH[OF d sub this] show ?case by simp
qed

section \<open>The closure operators of the relation semiring\<close>

lemma star3_left: "star3 x = 1 + x * star3 x"
proof -
  define R where "R = unRel x"
  define T where "T = (if R = {(finite_3.a\<^sub>1, finite_3.a\<^sub>1), (finite_3.a\<^sub>2, finite_3.a\<^sub>3)}
                       then {(finite_3.a\<^sub>1, finite_3.a\<^sub>2)} else {})"
  have r: "R\<^sup>* = Id \<union> R O R\<^sup>*"
    using rtrancl_unfold[of R] by (simp add: r_comp_rtrancl_eq)
  have t: "R O T = T" unfolding T_def by auto
  have "R\<^sup>* \<union> T = Id \<union> R O (R\<^sup>* \<union> T)"
    unfolding relcomp_distrib t using r by blast
  then have e: "Rel (R\<^sup>* \<union> T) = Rel (Id \<union> R O (R\<^sup>* \<union> T))"
    by (rule arg_cong)
  have a: "1 + x * star3 x = Rel (Id \<union> R O (R\<^sup>* \<union> T))"
    by (simp add: star3_def one_rel3_def plus_rel3_def times_rel3_def R_def T_def)
  have b: "star3 x = Rel (R\<^sup>* \<union> T)"
    by (simp add: star3_def R_def T_def)
  from b e a show ?thesis by (rule trans [OF trans, OF _ _ sym])
qed

lemma rstar3_right: "rstar3 x = 1 + rstar3 x * x"
proof -
  have "(unRel x)\<^sup>* = Id \<union> (unRel x)\<^sup>* O unRel x"
    by (rule rtrancl_unfold)
  then have "Rel ((unRel x)\<^sup>*) = Rel (Id \<union> (unRel x)\<^sup>* O unRel x)"
    by (rule arg_cong)
  moreover have "1 + rstar3 x * x = Rel (Id \<union> (unRel x)\<^sup>* O unRel x)"
    by (simp add: rstar3_def one_rel3_def plus_rel3_def times_rel3_def)
  ultimately show ?thesis by (simp add: rstar3_def)
qed

section \<open>The assertions of elim_nullary_slash\<close>










section \<open>The check of the Chomsky normal form\<close>

lemma in_cnf_rules_form:
  assumes "in_cnf_rules g rs = Inr True" and "r \<in> set rs"
  shows "(rule_body r = [] \<and> rule_head r = cfg_S g)
        \<or> (\<exists>a. rule_body r = [a] \<and> a \<in> set (cfg_V g))
        \<or> (\<exists>Y Z. rule_body r = [Y, Z] \<and> Y \<notin> set (cfg_V g) \<and> Z \<notin> set (cfg_V g)
               \<and> Y \<noteq> cfg_S g \<and> Z \<noteq> cfg_S g)"
  using assms
proof (induction rs)
  case Nil
  then show ?case by simp
next
  case (Cons q qs)
  have rest: "in_cnf_rules g qs = Inr True"
    using Cons.prems(1) by (simp split: if_splits)
  show ?case
  proof (cases "r = q")
    case False
    then show ?thesis using Cons.IH[OF rest] Cons.prems(2) by simp
  next
    case True
    have f: "(length (rule_body r) = 0 \<and> rule_head r = cfg_S g)
        \<or> (length (rule_body r) = 1 \<and> is_terminal g (rule_body r ! 0))
        \<or> (length (rule_body r) = 2
              \<and> list_all (\<lambda>y. is_nonterminal g y \<and> y \<noteq> cfg_S g) (rule_body r))"
      using Cons.prems(1) True by (simp split: if_splits)
    then show ?thesis
    proof (elim disjE)
      assume "length (rule_body r) = 0 \<and> rule_head r = cfg_S g"
      then show ?thesis by simp
    next
      assume a: "length (rule_body r) = 1 \<and> is_terminal g (rule_body r ! 0)"
      then obtain x where "rule_body r = [x]"
        by (cases "rule_body r") auto
      then show ?thesis using a by (simp add: is_terminal_def)
    next
      assume a: "length (rule_body r) = 2
              \<and> list_all (\<lambda>y. is_nonterminal g y \<and> y \<noteq> cfg_S g) (rule_body r)"
      then obtain Y Z where "rule_body r = [Y, Z]"
        by (cases "rule_body r"; cases "tl (rule_body r)") auto
      then show ?thesis using a by (simp add: is_nonterminal_def is_terminal_def)
    qed
  qed
qed

lemma in_cnf_form: "in_cnf g = Inr True \<Longrightarrow> cnf_form g"
  unfolding cnf_form_def in_cnf_def using in_cnf_rules_form by blast

section \<open>Rule identity\<close>

text \<open>
  C6, as stated: rules with the same head and body are equal even when their weights
  differ. \<open>Rule.__eq__\<close> compares the weight too, so two rules with the same head and
  body and different weights are not equal.
\<close>

theorem rule_eq_weight_counterexample:
  "\<not> (\<forall>h (r1 :: nat rule) r2.
        rule_head r1 = rule_head r2 \<and> rule_body r1 = rule_body r2 \<longrightarrow> rule_eq h r1 r2)"
proof
  assume a: "\<forall>h (r1 :: nat rule) r2.
        rule_head r1 = rule_head r2 \<and> rule_body r1 = rule_body r2 \<longrightarrow> rule_eq h r1 r2"
  have "rule_eq (\<lambda>_. 0) (Rule (1::nat) (Str ''S'') []) (Rule 2 (Str ''S'') [])"
    using a by (simp add: Rule_def)
  then show False by (simp add: rule_eq_def Rule_def)
qed

text \<open>
  C6, amended: rules with the same head and body have the same hash, and they are equal
  exactly when their weights are equal too.
\<close>

theorem rule_eq_head_body:
  "rule_head r1 = rule_head r2 \<Longrightarrow> rule_body r1 = rule_body r2 \<Longrightarrow>
     rule_hash h r1 = rule_hash h r2 \<and> (rule_eq h r1 r2 \<longleftrightarrow> rule_w r1 = rule_w r2)"
  by (simp add: rule_eq_def rule_hash_def)

theorem rule_eq_head_body_witness:
  "rule_hash (\<lambda>_. 0) (Rule (1::nat) (Str ''S'') []) = rule_hash (\<lambda>_. 0) (Rule (2::nat) (Str ''S'') [])
   \<and> \<not> rule_eq (\<lambda>_. 0) (Rule (1::nat) (Str ''S'') []) (Rule (2::nat) (Str ''S'') [])
   \<and> rule_eq (\<lambda>_. 0) (Rule (1::nat) (Str ''S'') []) (Rule (1::nat) (Str ''S'') [])"
  using rule_eq_head_body [of "Rule (1::nat) (Str ''S'') []" "Rule (2::nat) (Str ''S'') []" "\<lambda>_. 0"]
    rule_eq_head_body [of "Rule (1::nat) (Str ''S'') []" "Rule (1::nat) (Str ''S'') []" "\<lambda>_. 0"]
  by (simp add: Rule_def)

section \<open>Adding rules\<close>

text \<open>
  C7, as stated: \<open>add\<close> always adds the head to \<open>N\<close>, also when the zero-weight rule is
  dropped. The zero test returns before \<open>N\<close> is touched: adding a zero-weight rule for a
  new head leaves \<open>N\<close> without that head.
\<close>

theorem add_zero_head_counterexample:
  "\<not> (\<forall>(g :: nat cfg) w X body. X \<in> set (cfg_N (add' g w X body)))"
proof
  assume a: "\<forall>(g :: nat cfg) w X body. X \<in> set (cfg_N (add' g w X body))"
  have "Str ''X'' \<in> set (cfg_N (add' (CFG (Str ''S'') [] :: nat cfg) 0 (Str ''X'') []))"
    using a by blast
  then show False by (simp add: add'_def add_def CFG_def)
qed

text \<open>
  C7, amended: \<open>add\<close> with the zero weight leaves the grammar as it is (no rule appended,
  \<open>N\<close> unchanged) and returns nothing; \<open>add\<close> with a non-zero weight appends exactly the
  rule and puts the head into \<open>N\<close>; so a grammar without zero-weight rules has none
  after \<open>add\<close>.
\<close>

theorem add_zero_or_append:
  "(w = 0 \<longrightarrow> add g w X body = (g, None))
   \<and> (w \<noteq> 0 \<longrightarrow> cfg_rules (add' g w X body) = cfg_rules g @ [Rule w X body]
         \<and> set (cfg_N (add' g w X body)) = insert X (set (cfg_N g))
         \<and> cfg_S (add' g w X body) = cfg_S g \<and> cfg_V (add' g w X body) = cfg_V g)
   \<and> ((\<forall>r \<in> set (cfg_rules g). rule_w r \<noteq> 0) \<longrightarrow>
        (\<forall>r \<in> set (cfg_rules (add' g w X body)). rule_w r \<noteq> 0))"
  by (auto simp: add_def add'_def Rule_def)

theorem add_zero_or_append_witness:
  "add (CFG (Str ''S'') [] :: nat cfg) 0 (Str ''X'') [] = (CFG (Str ''S'') [], None)
   \<and> cfg_rules (add' (CFG (Str ''S'') [] :: nat cfg) 1 (Str ''X'') []) = [Rule 1 (Str ''X'') []]
   \<and> set (cfg_N (add' (CFG (Str ''S'') [] :: nat cfg) 1 (Str ''X'') [])) = {Str ''X'', Str ''S''}"
  using add_zero_or_append [of "0::nat" "CFG (Str ''S'') []" "Str ''X''" "[]"]
    add_zero_or_append [of "1::nat" "CFG (Str ''S'') []" "Str ''X''" "[]"]
  by (simp add: CFG_def)

section \<open>Separating the start symbol\<close>

text \<open>
  C8: \<open>separate_start\<close> is idempotent: after one application the start symbol is in
  no rule body, so a second application returns its input unchanged. The docstring of
  \<open>separate_start\<close> says the same of one application (the start symbol does not appear
  on the right-hand side of any rule), and \<open>_push_null_weights\<close> asserts it. The new
  start symbol is a generated name that is not checked against the grammar. On the
  grammar with the one rule \<open>S \<rightarrow> S S@1\<close> and the counter at 0 the code returns the start
  symbol \<open>S@1\<close>, which is in the body of that rule, and a second application makes the
  start symbol \<open>S@1@2\<close> and adds a rule.
\<close>

theorem separate_start_generated_name_in_body:
  "cfg_S (fst (separate_start
       (add' (CFG (Str ''S'') [] :: nat cfg) 1 (Str ''S'') [Str ''S'', Str ''S@1'']) 0)) = Str ''S@1''
   \<and> Str ''S@1'' \<in> body_syms (fst (separate_start
       (add' (CFG (Str ''S'') [] :: nat cfg) 1 (Str ''S'') [Str ''S'', Str ''S@1'']) 0))
   \<and> cfg_S (fst (separate_start
       (fst (separate_start
          (add' (CFG (Str ''S'') [] :: nat cfg) 1 (Str ''S'') [Str ''S'', Str ''S@1'']) 0))
       (snd (separate_start
          (add' (CFG (Str ''S'') [] :: nat cfg) 1 (Str ''S'') [Str ''S'', Str ''S@1'']) 0)))) = Str ''S@1@2''
   \<and> separate_start
       (fst (separate_start
          (add' (CFG (Str ''S'') [] :: nat cfg) 1 (Str ''S'') [Str ''S'', Str ''S@1'']) 0))
       (snd (separate_start
          (add' (CFG (Str ''S'') [] :: nat cfg) 1 (Str ''S'') [Str ''S'', Str ''S@1'']) 0))
     \<noteq> separate_start
          (add' (CFG (Str ''S'') [] :: nat cfg) 1 (Str ''S'') [Str ''S'', Str ''S@1'']) 0"
  by code_simp

text \<open>
  Where the generated name is new, the claim holds: when the start symbol is in some
  rule body only if the name that \<open>separate_start\<close> would generate is in none, the start
  symbol of the result is in no rule body of the result, and a second application returns
  its input unchanged.
\<close>

lemma separate_start_idempotent_fresh:
  assumes "cfg_S g \<in> body_syms g \<longrightarrow> gen_nt_name (str_sym (cfg_S g)) (c + 1) \<notin> body_syms g"
  shows "cfg_S (fst (separate_start g c)) \<notin> body_syms (fst (separate_start g c))
         \<and> separate_start (fst (separate_start g c)) (snd (separate_start g c)) = separate_start g c"
proof (cases "cfg_S g \<in> body_syms g")
  case False
  then show ?thesis by (simp add: separate_start_def)
next
  case True
  let ?S = "gen_nt_name (str_sym (cfg_S g)) (c + 1)"
  let ?new = "add_all (cfg_rules g) (add' (spawn_S g ?S) 1 ?S [cfg_S g])"
  have fresh: "?S \<notin> body_syms g" using assms True by blast
  have r: "separate_start g c = (?new, c + 1)"
    using True by (simp add: separate_start_def gen_nt_def)
  have "body_syms ?new \<subseteq> insert (cfg_S g) (body_syms g)"
    by (auto simp: body_syms_def add_all_simps add'_simps spawn_simps Rule_def)
  moreover have "?S \<noteq> cfg_S g" by (rule gen_nt_name_neq)
  ultimately have n: "cfg_S ?new \<notin> body_syms ?new"
    using fresh by (auto simp: add_all_simps add'_simps spawn_simps)
  then have "separate_start ?new (c + 1) = (?new, c + 1)"
    by (simp add: separate_start_def)
  with r n show ?thesis by simp
qed

section \<open>Separating terminals\<close>

text \<open>
  C5, as stated: in the result of \<open>separate_terminals\<close> every terminal in a rule body is
  the only body symbol of a rule of weight one. A rule of the input whose body is one
  terminal is copied with its own weight: \<open>2: S \<rightarrow> a\<close> stays as it is.
\<close>

theorem separate_terminals_unit_counterexample:
  "\<not> (\<forall>(g :: nat cfg) c g' c'. separate_terminals g c = Inr (g', c') \<longrightarrow>
        (\<forall>r \<in> set (cfg_rules g'). \<forall>y \<in> set (rule_body r). is_terminal g' y \<longrightarrow>
           rule_body r = [y] \<and> rule_w r = 1))"
proof
  assume a: "\<forall>(g :: nat cfg) c g' c'. separate_terminals g c = Inr (g', c') \<longrightarrow>
        (\<forall>r \<in> set (cfg_rules g'). \<forall>y \<in> set (rule_body r). is_terminal g' y \<longrightarrow>
           rule_body r = [y] \<and> rule_w r = 1)"
  let ?g = "add' (CFG (Str ''S'') [Str ''a''] :: nat cfg) 2 (Str ''S'') [Str ''a'']"
  have s: "separate_terminals ?g 0 = Inr (?g, 0)"
    by code_simp
  have r: "Rule 2 (Str ''S'') [Str ''a''] \<in> set (cfg_rules ?g)"
    and y: "Str ''a'' \<in> set (rule_body (Rule (2::nat) (Str ''S'') [Str ''a'']))"
    and t: "is_terminal ?g (Str ''a'')"
    by (simp_all add: add'_simps CFG_simps Rule_def is_terminal_def)
  from a s r y t have "rule_w (Rule (2::nat) (Str ''S'') [Str ''a'']) = 1"
    by blast
  then show False by (simp add: Rule_def)
qed

text \<open>
  C5, amended: when no name that the counter can still generate (an at sign and a number
  above the current counter value) is a terminal, then in the grammar that
  \<open>separate_terminals\<close> returns every terminal in a rule body is the only symbol of
  that body, and the rule is either a rule of the input (kept with its own weight) or has
  the weight one; and \<open>separate_terminals\<close> does return a grammar when the semiring's
  one is not its zero.
\<close>

theorem separate_terminals_preterminal:
  assumes "\<forall>k>c. gen_nt_name [] k \<notin> set (cfg_V (g :: 'w::{zero,one} cfg))"
  shows "(\<forall>g' c'. separate_terminals g c = Inr (g', c') \<longrightarrow>
            (\<forall>r \<in> set (cfg_rules g'). \<forall>y \<in> set (rule_body r). is_terminal g' y \<longrightarrow>
               rule_body r = [y] \<and> (r \<in> set (cfg_rules g) \<or> rule_w r = 1)))
         \<and> ((1::'w) \<noteq> 0 \<longrightarrow> (\<exists>g' c'. separate_terminals g c = Inr (g', c')))"
proof (intro conjI allI impI)
  fix g' c'
  assume "separate_terminals g c = Inr (g', c')"
  then obtain pt' where s: "st_rules g (spawn g, Map.empty, c) (cfg_rules g) = Inr (g', pt', c')"
    by (auto simp: separate_terminals_def bindE_def split: sum.splits)
  have "cfg_V g' = cfg_V g
     \<and> (\<forall>r \<in> set (cfg_rules g'). \<forall>y \<in> set (rule_body r). y \<in> set (cfg_V g) \<longrightarrow>
           rule_body r = [y] \<and> (r \<in> set (cfg_rules g) \<or> rule_w r = 1))"
    by (rule st_rules_inv[OF s _ assms]) (simp_all add: spawn_simps)
  then show "\<forall>r \<in> set (cfg_rules g'). \<forall>y \<in> set (rule_body r). is_terminal g' y \<longrightarrow>
               rule_body r = [y] \<and> (r \<in> set (cfg_rules g) \<or> rule_w r = 1)"
    by (simp add: is_terminal_def)
next
  assume "(1::'w) \<noteq> 0"
  from st_rules_returns[OF this, of g "(spawn g, Map.empty, c)" "cfg_rules g"]
  show "\<exists>g' c'. separate_terminals g c = Inr (g', c')"
    by (auto simp: separate_terminals_def bindE_def)
qed


theorem separate_terminals_preterminal_witness:
  "(\<exists>g' c'. separate_terminals
       (add' (add' (CFG (Str ''S'') [Str ''a''] :: nat cfg) 2 (Str ''S'') [Str ''a''])
          3 (Str ''S'') [Str ''a'', Str ''S'', Str ''a'']) 0 = Inr (g', c'))
   \<and> map rule_body (cfg_rules (fst (projr (separate_terminals
       (add' (add' (CFG (Str ''S'') [Str ''a''] :: nat cfg) 2 (Str ''S'') [Str ''a''])
          3 (Str ''S'') [Str ''a'', Str ''S'', Str ''a'']) 0))))
     = [[Str ''a''], [Str ''a''], [Str ''@1'', Str ''S'', Str ''@1'']]
   \<and> map rule_w (cfg_rules (fst (projr (separate_terminals
       (add' (add' (CFG (Str ''S'') [Str ''a''] :: nat cfg) 2 (Str ''S'') [Str ''a''])
          3 (Str ''S'') [Str ''a'', Str ''S'', Str ''a'']) 0))))
     = [2, 1, 3]"
proof -
  let ?g = "add' (add' (CFG (Str ''S'') [Str ''a''] :: nat cfg) 2 (Str ''S'') [Str ''a''])
          3 (Str ''S'') [Str ''a'', Str ''S'', Str ''a'']"
  have h: "\<forall>k>0. gen_nt_name [] k \<notin> set (cfg_V ?g)"
    by (simp add: add'_simps CFG_simps gen_nt_name_def)
  have e: "map rule_body (cfg_rules (fst (projr (separate_terminals ?g 0))))
     = [[Str ''a''], [Str ''a''], [Str ''@1'', Str ''S'', Str ''@1'']]"
    by code_simp
  have w: "map rule_w (cfg_rules (fst (projr (separate_terminals ?g 0)))) = [2, 1, 3]"
    by code_simp
  have "(1::nat) \<noteq> 0" by simp
  with separate_terminals_preterminal [OF h]
  have "\<exists>g' c'. separate_terminals ?g 0 = Inr (g', c')" by (rule conjunct2 [THEN mp])
  with e w show ?thesis by (intro conjI)
qed

section \<open>Nullary removal\<close>

text \<open>
  C3, as stated: for every grammar and every setting of the keyword arguments, the grammar
  that \<open>nullaryremove\<close> returns has exactly one nullary rule, with head \<open>S\<close>. The rule
  for \<open>S\<close> is added with \<open>add\<close>, which drops it when the null weight of \<open>S\<close> is zero:
  for \<open>S \<rightarrow> A B\<close>, \<open>A \<rightarrow> a\<close>, \<open>A \<rightarrow>\<close>, \<open>B \<rightarrow> b\<close> the result has no nullary rule. With
  \<open>recovery\<close> on, the result has the nullary rule of \<open>A\<close>, whose head is not \<open>S\<close>.
\<close>

theorem nullaryremove_one_nullary_counterexample:
  "(case nullaryremove (=) True False default_rename
           (add' (add' (add' (add' (CFG (Str ''S'') [Str ''a'', Str ''b''] :: nat cfg)
              1 (Str ''S'') [Str ''A'', Str ''B'']) 1 (Str ''A'') [Str ''a''])
              1 (Str ''A'') []) 1 (Str ''B'') [Str ''b'']) 0 of
      Inl e \<Rightarrow> False
    | Inr (g', c') \<Rightarrow> nullary_rules g' = [])
   \<and> (case nullaryremove (=) True True default_rename
           (add' (add' (add' (add' (CFG (Str ''S'') [Str ''a'', Str ''b''] :: nat cfg)
              1 (Str ''S'') [Str ''A'', Str ''B'']) 1 (Str ''A'') [Str ''a''])
              1 (Str ''A'') []) 1 (Str ''B'') [Str ''b'']) 0 of
      Inl e \<Rightarrow> False
    | Inr (g', c') \<Rightarrow> nullary_rules g' = [Rule 1 (Str ''A'') []] \<and> cfg_S g' = Str ''S'')"
  by code_simp

text \<open>
  C3, amended: let \<open>g2\<close> be the grammar after the optional \<open>binarize\<close> and after
  \<open>separate_start\<close>, \<open>S\<close> its start symbol and \<open>nw\<close> its null weights.
  \<open>nullaryremove\<close> returns a grammar exactly when \<open>S\<close> is in no rule body of \<open>g2\<close>
  (otherwise the assertion of \<open>_push_null_weights\<close> fails). The grammar returned has
  the start symbol \<open>S\<close>, and its nullary rules are exactly these, in this order: the rule
  of weight \<open>nw[S]\<close> with head \<open>S\<close> when \<open>nw[S]\<close> is not zero (none when it is zero);
  then, with \<open>recovery\<close> on only, the bridging rule of weight \<open>nw[x]\<close> with head \<open>x\<close>
  for each nonterminal \<open>x\<close> of \<open>g2\<close> that is renamed (\<open>nw[x]\<close> not zero, \<open>x\<close> not
  \<open>S\<close>, \<open>rename(x)\<close> not \<open>x\<close>). So with \<open>recovery\<close> off every nullary rule has
  head \<open>S\<close> and there is at most one.
\<close>

theorem nullaryremove_nullary:
  assumes "g2 = fst (case (if b then binarize g c else (g, c)) of (g1, c1) \<Rightarrow> separate_start g1 c1)"
    and "nw = null_weight close g2"
  shows "((\<exists>g' c'. nullaryremove close b recovery rename g c = Inr (g', c')) \<longleftrightarrow> cfg_S g2 \<notin> body_syms g2)
    \<and> (\<forall>g' c'. nullaryremove close b recovery rename g c = Inr (g', c') \<longrightarrow>
          cfg_S g' = cfg_S g2
          \<and> nullary_rules g' =
              (if chart_get nw (cfg_S g2) = 0 then [] else [Rule (chart_get nw (cfg_S g2)) (cfg_S g2) []])
              @ (if recovery
                 then map (\<lambda>x. Rule (chart_get nw x) x [])
                        (filter (\<lambda>x. chart_get nw x \<noteq> 0 \<and> x \<noteq> cfg_S g2 \<and> rename x \<noteq> x) (cfg_N g2))
                 else [])
          \<and> filter (\<lambda>r. rule_head r = cfg_S g') (nullary_rules g') =
              (if chart_get nw (cfg_S g2) = 0 then [] else [Rule (chart_get nw (cfg_S g2)) (cfg_S g2) []])
          \<and> (\<not> recovery \<longrightarrow> (\<forall>r \<in> set (nullary_rules g'). rule_head r = cfg_S g')
                \<and> length (nullary_rules g') \<le> 1))"
proof -
  obtain g1 c1 where b: "(if b then binarize g c else (g, c)) = (g1, c1)"
    by (cases "if b then binarize g c else (g, c)") auto
  obtain c2 where s: "separate_start g1 c1 = (g2, c2)"
    using assms(1) b by (cases "separate_start g1 c1") auto
  have n: "nullaryremove close b recovery rename g c =
      bindE (push_null_weights g2 nw recovery rename) (\<lambda>g3. Inr (g3, c2))"
    using b s assms(2) unfolding nullaryremove_def by simp
  have r: "(\<exists>g' c'. nullaryremove close b recovery rename g c = Inr (g', c')) \<longleftrightarrow> cfg_S g2 \<notin> body_syms g2"
    unfolding n using push_null_weights_returns[of g2 nw recovery rename]
    by (auto simp: bindE_def split: sum.splits)
  let ?S = "if chart_get nw (cfg_S g2) = 0 then [] else [Rule (chart_get nw (cfg_S g2)) (cfg_S g2) []]"
  let ?B = "map (\<lambda>x. Rule (chart_get nw x) x [])
              (filter (\<lambda>x. chart_get nw x \<noteq> 0 \<and> x \<noteq> cfg_S g2 \<and> rename x \<noteq> x) (cfg_N g2))"
  have p: "cfg_S g' = cfg_S g2
          \<and> nullary_rules g' = ?S @ (if recovery then ?B else [])
          \<and> filter (\<lambda>r. rule_head r = cfg_S g') (nullary_rules g') = ?S
          \<and> (\<not> recovery \<longrightarrow> (\<forall>r \<in> set (nullary_rules g'). rule_head r = cfg_S g')
                \<and> length (nullary_rules g') \<le> 1)"
    if "nullaryremove close b recovery rename g c = Inr (g', c')" for g' c'
  proof -
    from that have q: "push_null_weights g2 nw recovery rename = Inr g'"
      unfolding n by (auto simp: bindE_def split: sum.splits)
    have f: "filter (\<lambda>x. pnw_f g2 nw rename x \<noteq> x \<and> chart_get nw x \<noteq> 0) (cfg_N g2)
        = filter (\<lambda>x. chart_get nw x \<noteq> 0 \<and> x \<noteq> cfg_S g2 \<and> rename x \<noteq> x) (cfg_N g2)"
      by (rule filter_cong) (auto simp: pnw_f_def)
    have S: "cfg_S g' = cfg_S g2" using push_null_weights_nullary(1)[OF q] .
    have N: "nullary_rules g' = ?S @ (if recovery then ?B else [])"
      using push_null_weights_nullary(2)[OF q] unfolding f .
    have B: "filter (\<lambda>r. rule_head r = cfg_S g2) ?B = []"
      by (auto simp: filter_empty_conv Rule_def)
    have F: "filter (\<lambda>r. rule_head r = cfg_S g') (nullary_rules g') = ?S"
      unfolding N S using B by (simp add: Rule_def)
    have R: "\<not> recovery \<longrightarrow> (\<forall>r \<in> set (nullary_rules g'). rule_head r = cfg_S g')
                \<and> length (nullary_rules g') \<le> 1"
      unfolding N S by (simp add: Rule_def)
    from S N F R show ?thesis by blast
  qed
  from r p show ?thesis by blast
qed


theorem nullaryremove_nullary_witness:
  "(\<exists>g' c'. nullaryremove (=) True False default_rename
       (add' (add' (add' (CFG (Str ''S'') [Str ''a''] :: nat cfg)
          1 (Str ''S'') [Str ''A'', Str ''A'']) 1 (Str ''A'') [Str ''a'']) 1 (Str ''A'') []) 0
       = Inr (g', c'))
   \<and> nullary_rules (fst (projr (nullaryremove (=) True False default_rename
       (add' (add' (add' (CFG (Str ''S'') [Str ''a''] :: nat cfg)
          1 (Str ''S'') [Str ''A'', Str ''A'']) 1 (Str ''A'') [Str ''a'']) 1 (Str ''A'') []) 0)))
     = [Rule 1 (Str ''S'') []]
   \<and> (\<exists>g' c'. nullaryremove (=) True True default_rename
       (add' (add' (add' (CFG (Str ''S'') [Str ''a''] :: nat cfg)
          1 (Str ''S'') [Str ''A'', Str ''A'']) 1 (Str ''A'') [Str ''a'']) 1 (Str ''A'') []) 0
       = Inr (g', c'))
   \<and> nullary_rules (fst (projr (nullaryremove (=) True True default_rename
       (add' (add' (add' (CFG (Str ''S'') [Str ''a''] :: nat cfg)
          1 (Str ''S'') [Str ''A'', Str ''A'']) 1 (Str ''A'') [Str ''a'']) 1 (Str ''A'') []) 0)))
     = [Rule 1 (Str ''S'') [], Rule 1 (Str ''A'') []]"
proof -
  let ?g = "add' (add' (add' (CFG (Str ''S'') [Str ''a''] :: nat cfg)
          1 (Str ''S'') [Str ''A'', Str ''A'']) 1 (Str ''A'') [Str ''a'']) 1 (Str ''A'') []"
  let ?g2 = "fst (case (if True then binarize ?g 0 else (?g, 0)) of (g1, c1) \<Rightarrow> separate_start g1 c1)"
  have h: "cfg_S ?g2 \<notin> body_syms ?g2"
    by code_simp
  have e: "nullary_rules (fst (projr (nullaryremove (=) True False default_rename ?g 0)))
     = [Rule 1 (Str ''S'') []]"
    by code_simp
  have e': "nullary_rules (fst (projr (nullaryremove (=) True True default_rename ?g 0)))
     = [Rule 1 (Str ''S'') [], Rule 1 (Str ''A'') []]"
    by code_simp
  from nullaryremove_nullary [OF refl refl, of "(=)" True False default_rename ?g 0] h
  have 1: "\<exists>g' c'. nullaryremove (=) True False default_rename ?g 0 = Inr (g', c')"
    by (rule conjunct1 [THEN iffD2])
  from nullaryremove_nullary [OF refl refl, of "(=)" True True default_rename ?g 0] h
  have 2: "\<exists>g' c'. nullaryremove (=) True True default_rename ?g 0 = Inr (g', c')"
    by (rule conjunct1 [THEN iffD2])
  from 1 e 2 e' show ?thesis by (intro conjI)
qed

section \<open>The closure of a chart\<close>

text \<open>
  C4, as stated: over a semiring whose star satisfies \<open>star(x) = one + x * star(x)\<close>, the
  chart \<open>V\<close> that \<open>_lehmann(N, W)\<close> returns satisfies
  \<open>V[i,k] = (one if i = k else zero) + sum over j of V[i,j] * W[j,k]\<close>. The axiom unfolds
  the star on the left and the equation multiplies by \<open>W\<close> on the right; the
  multiplication need not be commutative. In the semiring of relations, \<open>star3\<close>
  satisfies the axiom, and the equation fails on the chart with the one node \<open>0\<close> and
  \<open>W[0,0] = {(1,1), (2,3)}\<close>.
\<close>

theorem lehmann_left_unfold_counterexample:
  "(\<forall>x. star3 x = 1 + x * star3 x)
   \<and> chart_get (lehmann star3 [0::nat]
         [((0, 0), Rel {(finite_3.a\<^sub>1, finite_3.a\<^sub>1), (finite_3.a\<^sub>2, finite_3.a\<^sub>3)})]) (0, 0)
      \<noteq> (if (0::nat) = 0 then 1 else 0)
        + (\<Sum>j\<in>set [0::nat].
             chart_get (lehmann star3 [0::nat]
               [((0, 0), Rel {(finite_3.a\<^sub>1, finite_3.a\<^sub>1), (finite_3.a\<^sub>2, finite_3.a\<^sub>3)})]) (0, j)
             * chart_get [((0::nat, 0::nat),
                 Rel {(finite_3.a\<^sub>1, finite_3.a\<^sub>1), (finite_3.a\<^sub>2, finite_3.a\<^sub>3)})] (j, 0))"
proof
  show "\<forall>x. star3 x = 1 + x * star3 x" using star3_left by blast
  show "chart_get (lehmann star3 [0::nat]
         [((0, 0), Rel {(finite_3.a\<^sub>1, finite_3.a\<^sub>1), (finite_3.a\<^sub>2, finite_3.a\<^sub>3)})]) (0, 0)
      \<noteq> (if (0::nat) = 0 then 1 else 0)
        + (\<Sum>j\<in>set [0::nat].
             chart_get (lehmann star3 [0::nat]
               [((0, 0), Rel {(finite_3.a\<^sub>1, finite_3.a\<^sub>1), (finite_3.a\<^sub>2, finite_3.a\<^sub>3)})]) (0, j)
             * chart_get [((0::nat, 0::nat),
                 Rel {(finite_3.a\<^sub>1, finite_3.a\<^sub>1), (finite_3.a\<^sub>2, finite_3.a\<^sub>3)})] (j, 0))"
    by code_simp
qed

text \<open>
  C4, amended: over a semiring (its multiplication commutative or not) whose star satisfies
  \<open>star(x) = one + star(x) * x\<close>, for every list \<open>N\<close> of distinct nodes and every chart
  \<open>W\<close>, the chart \<open>V\<close> that \<open>_lehmann(N, W)\<close> returns satisfies, for all \<open>i\<close> and \<open>k\<close>
  in \<open>N\<close>, \<open>V[i,k] = (one if i = k else zero) + sum over j in N of V[i,j] * W[j,k]\<close>.
\<close>

theorem lehmann_fixpoint:
  fixes star :: "'w::semiring_1 \<Rightarrow> 'w"
  assumes ax: "\<forall>x. star x = 1 + star x * x"
    and N: "distinct N" and i: "i \<in> set N" and k: "k \<in> set N"
  shows "chart_get (lehmann star N W) (i, k) =
           (if i = k then 1 else 0)
           + (\<Sum>j\<in>set N. chart_get (lehmann star N W) (i, j) * chart_get W (j, k))"
proof -
  obtain V U where f: "fold (lehmann_step star N) N (W, W) = (V, U)"
    by (cases "fold (lehmann_step star N) N (W, W)")
  have inv: "\<forall>i\<in>set N. \<forall>k\<in>set N. chart_get V (i, k) =
      chart_get W (i, k) + (\<Sum>j\<in>set N. chart_get V (i, j) * chart_get W (j, k))"
    using lehmann_fold_inv[OF ax, of "[]" N N "(W, W)" W] N f by simp
  have l: "chart_get (lehmann star N W) (a, b) =
      (if a = b \<and> a \<in> set N then chart_get V (a, b) + 1 else chart_get V (a, b))" for a b
    using f N by (simp add: lehmann_def chart_get_fold_diag)
  have "(\<Sum>j\<in>set N. chart_get (lehmann star N W) (i, j) * chart_get W (j, k))
      = (\<Sum>j\<in>set N. chart_get V (i, j) * chart_get W (j, k) + (if j = i then chart_get W (j, k) else 0))"
    using i by (intro sum.cong) (auto simp: l distrib_right)
  also have "\<dots> = (\<Sum>j\<in>set N. chart_get V (i, j) * chart_get W (j, k)) + chart_get W (i, k)"
    using i by (simp add: sum.distrib)
  finally have s: "(\<Sum>j\<in>set N. chart_get (lehmann star N W) (i, j) * chart_get W (j, k))
      = (\<Sum>j\<in>set N. chart_get V (i, j) * chart_get W (j, k)) + chart_get W (i, k)" .
  have v: "chart_get V (i, k) = chart_get W (i, k) + (\<Sum>j\<in>set N. chart_get V (i, j) * chart_get W (j, k))"
    using inv i k by blast
  have lhs: "chart_get (lehmann star N W) (i, k) = chart_get V (i, k) + (if i = k then 1 else 0)"
    using i by (simp add: l)
  show ?thesis unfolding s lhs using v by (simp add: add.commute add.left_commute)
qed


theorem lehmann_fixpoint_witness:
  "(\<forall>x. rstar3 x = 1 + rstar3 x * x)
   \<and> chart_get (lehmann rstar3 [0::nat, 1]
         [((0, 1), Rel {(finite_3.a\<^sub>1, finite_3.a\<^sub>2)}), ((1, 0), Rel {(finite_3.a\<^sub>2, finite_3.a\<^sub>3)})]) (0, 1)
      = (if (0::nat) = 1 then 1 else 0)
        + (\<Sum>j\<in>set [0::nat, 1].
             chart_get (lehmann rstar3 [0::nat, 1]
               [((0, 1), Rel {(finite_3.a\<^sub>1, finite_3.a\<^sub>2)}), ((1, 0), Rel {(finite_3.a\<^sub>2, finite_3.a\<^sub>3)})]) (0, j)
             * chart_get [((0::nat, 1::nat), Rel {(finite_3.a\<^sub>1, finite_3.a\<^sub>2)}),
                          ((1, 0), Rel {(finite_3.a\<^sub>2, finite_3.a\<^sub>3)})] (j, 1))
   \<and> chart_get (lehmann rstar3 [0::nat, 1]
         [((0, 1), Rel {(finite_3.a\<^sub>1, finite_3.a\<^sub>2)}), ((1, 0), Rel {(finite_3.a\<^sub>2, finite_3.a\<^sub>3)})]) (0, 0)
      = Rel {(finite_3.a\<^sub>1, finite_3.a\<^sub>1), (finite_3.a\<^sub>2, finite_3.a\<^sub>2),
             (finite_3.a\<^sub>3, finite_3.a\<^sub>3), (finite_3.a\<^sub>1, finite_3.a\<^sub>3)}"
proof -
  have ax: "\<forall>x. rstar3 x = 1 + rstar3 x * x" using rstar3_right by blast
  have d: "distinct [0::nat, 1]" and i: "(0::nat) \<in> set [0, 1]" and k: "(1::nat) \<in> set [0, 1]"
    by simp_all
  have v: "chart_get (lehmann rstar3 [0::nat, 1]
         [((0, 1), Rel {(finite_3.a\<^sub>1, finite_3.a\<^sub>2)}), ((1, 0), Rel {(finite_3.a\<^sub>2, finite_3.a\<^sub>3)})]) (0, 0)
      = Rel {(finite_3.a\<^sub>1, finite_3.a\<^sub>1), (finite_3.a\<^sub>2, finite_3.a\<^sub>2),
             (finite_3.a\<^sub>3, finite_3.a\<^sub>3), (finite_3.a\<^sub>1, finite_3.a\<^sub>3)}"
    by code_simp
  from ax lehmann_fixpoint [OF ax d i k] v show ?thesis by (intro conjI)
qed

section \<open>Eliminating the nullary rules of slash symbols\<close>




section \<open>Chomsky normal form\<close>

text \<open>
  C2, as stated: \<open>cnf\<close> is \<open>separate_terminals o binarize o nullaryremove o
  unaryremove o trim\<close>, with \<open>trim\<close> applied first and \<open>separate_terminals\<close> last.
  The code chains the methods the other way round: \<open>separate_terminals\<close> is applied
  first and \<open>trim\<close> last. On \<open>S \<rightarrow> A\<close>, \<open>A \<rightarrow> a a\<close> the two orders give different
  grammars: trimming last removes the rules of \<open>A\<close>, which has become unreachable;
  trimming first keeps them.
\<close>

theorem cnf_order_counterexample:
  "cnf (\<lambda>x. 1) (=) (add' (add' (CFG (Str ''S'') [Str ''a''] :: nat cfg) 1 (Str ''S'') [Str ''A'']) 1 (Str ''A'') [Str ''a'', Str ''a'']) 0 \<noteq> cnf_spec_order (\<lambda>x. 1) (=) (add' (add' (CFG (Str ''S'') [Str ''a''] :: nat cfg) 1 (Str ''S'') [Str ''A'']) 1 (Str ''A'') [Str ''a'', Str ''a'']) 0"
proof -
  let ?g = "(add' (add' (CFG (Str ''S'') [Str ''a''] :: nat cfg) 1 (Str ''S'') [Str ''A'']) 1 (Str ''A'') [Str ''a'', Str ''a''])"
  define g1 :: "nat cfg" where
    "g1 = \<lparr>cfg_S = Str ''S'', cfg_V = [Str ''a''], cfg_N = [Str ''A'', Str ''@1'', Str ''S''],
        cfg_rules = [Rule 1 (Str ''S'') [Str ''A''],
          Rule 1 (Str ''@1'') [Str ''a''],
          Rule 1 (Str ''A'') [Str ''@1'', Str ''@1'']]\<rparr>"
  define g2 :: "nat cfg" where
    "g2 = \<lparr>cfg_S = Str ''S'', cfg_V = [Str ''a''], cfg_N = [Str ''@1'', Str ''A'', Str ''S''],
        cfg_rules = [Rule 1 (Str ''A'') [Str ''@1'', Str ''@1''],
          Rule 1 (Str ''@1'') [Str ''a''],
          Rule 1 (Str ''S'') [Str ''A'']]\<rparr>"
  define g3 :: "nat cfg" where
    "g3 = \<lparr>cfg_S = Str ''S'', cfg_V = [Str ''a''], cfg_N = [Str ''A'', Str ''@1'', Str ''S''],
        cfg_rules = [Rule 1 (Str ''S'') [Str ''A''],
          Rule 1 (Str ''@1'') [Str ''a''],
          Rule 1 (Str ''A'') [Str ''@1'', Str ''@1'']]\<rparr>"
  define g4 :: "nat cfg" where
    "g4 = \<lparr>cfg_S = Str ''S'', cfg_V = [Str ''a''], cfg_N = [Str ''A'', Str ''@1'', Str ''S''],
        cfg_rules = [Rule 1 (Str ''@1'') [Str ''a''],
          Rule 1 (Str ''A'') [Str ''@1'', Str ''@1''],
          Rule 1 (Str ''S'') [Str ''@1'', Str ''@1'']]\<rparr>"
  define g5 :: "nat cfg" where
    "g5 = \<lparr>cfg_S = Str ''S'', cfg_V = [Str ''a''], cfg_N = [Str ''@1'', Str ''S''],
        cfg_rules = [Rule 1 (Str ''@1'') [Str ''a''],
          Rule 1 (Str ''S'') [Str ''@1'', Str ''@1'']]\<rparr>"
  have st: "separate_terminals ?g 0 = Inr (g1, 1)"
    unfolding g1_def by code_simp
  have bz: "binarize g1 1 = (g2, 1)"
    unfolding g1_def g2_def by code_simp
  have nr: "nullaryremove (=) True False default_rename g2 1 = Inr (g3, 1)"
    unfolding g2_def g3_def by code_simp
  have ur: "unaryremove (\<lambda>x. 1) g3 = g4"
    unfolding g3_def g4_def by code_simp
  have tr: "trim g4 False = g5"
    unfolding g4_def g5_def by code_simp
  have ic: "in_cnf g5 = Inr True"
    unfolding g5_def by code_simp
  have c: "cnf (\<lambda>x. 1) (=) ?g 0 = Inr (g5, 1)"
    unfolding cnf_def
    by (simp only: st bindE_def sum.case prod.case bz nr ur tr ic Let_def if_True)
  define h1 :: "nat cfg" where
    "h1 = \<lparr>cfg_S = Str ''S'', cfg_V = [Str ''a''], cfg_N = [Str ''A'', Str ''S''],
        cfg_rules = [Rule 1 (Str ''S'') [Str ''A''],
          Rule 1 (Str ''A'') [Str ''a'', Str ''a'']]\<rparr>"
  define h2 :: "nat cfg" where
    "h2 = \<lparr>cfg_S = Str ''S'', cfg_V = [Str ''a''], cfg_N = [Str ''A'', Str ''S''],
        cfg_rules = [Rule 1 (Str ''A'') [Str ''a'', Str ''a''],
          Rule 1 (Str ''S'') [Str ''a'', Str ''a'']]\<rparr>"
  define h3 :: "nat cfg" where
    "h3 = \<lparr>cfg_S = Str ''S'', cfg_V = [Str ''a''], cfg_N = [Str ''A'', Str ''S''],
        cfg_rules = [Rule 1 (Str ''S'') [Str ''a'', Str ''a''],
          Rule 1 (Str ''A'') [Str ''a'', Str ''a'']]\<rparr>"
  define h4 :: "nat cfg" where
    "h4 = \<lparr>cfg_S = Str ''S'', cfg_V = [Str ''a''], cfg_N = [Str ''A'', Str ''S''],
        cfg_rules = [Rule 1 (Str ''A'') [Str ''a'', Str ''a''],
          Rule 1 (Str ''S'') [Str ''a'', Str ''a'']]\<rparr>"
  define h5 :: "nat cfg" where
    "h5 = \<lparr>cfg_S = Str ''S'', cfg_V = [Str ''a''], cfg_N = [Str ''A'', Str ''@1'', Str ''S''],
        cfg_rules = [Rule 1 (Str ''@1'') [Str ''a''],
          Rule 1 (Str ''A'') [Str ''@1'', Str ''@1''],
          Rule 1 (Str ''S'') [Str ''@1'', Str ''@1'']]\<rparr>"
  have tr': "trim ?g False = h1"
    unfolding h1_def by code_simp
  have ur': "unaryremove (\<lambda>x. 1) h1 = h2"
    unfolding h1_def h2_def by code_simp
  have nr': "nullaryremove (=) True False default_rename h2 0 = Inr (h3, 0)"
    unfolding h2_def h3_def by code_simp
  have bz': "binarize h3 0 = (h4, 0)"
    unfolding h3_def h4_def by code_simp
  have st': "separate_terminals h4 0 = Inr (h5, 1)"
    unfolding h4_def h5_def by code_simp
  have s: "cnf_spec_order (\<lambda>x. 1) (=) ?g 0 = Inr (h5, 1)"
    unfolding cnf_spec_order_def
    by (simp only: tr' ur' nr' bindE_def sum.case prod.case bz' st')

  have "length (cfg_rules g5) \<noteq> length (cfg_rules h5)"
    by (simp add: g5_def h5_def)
  then have "g5 \<noteq> h5" by auto
  then show ?thesis unfolding c s by simp
qed

text \<open>
  C2, amended: whenever \<open>cnf\<close> returns a grammar (its final assertion has passed), that
  grammar is \<open>trim\<close> of \<open>unaryremove\<close> of \<open>nullaryremove\<close> of \<open>binarize\<close> of
  \<open>separate_terminals\<close> of the input (\<open>separate_terminals\<close> applied first and
  \<open>trim\<close> last), and it satisfies the CNF invariant: every rule is nullary with head
  \<open>S\<close>, or unary with a terminal body, or binary with two non-start nonterminal body
  symbols.
\<close>

theorem cnf_code_order:
  "\<forall>g' c'. cnf star close g c = Inr (g', c') \<longrightarrow>
     cnf_form g'
     \<and> (\<exists>g1 c1 g2 c2 g3. separate_terminals g c = Inr (g1, c1) \<and> binarize g1 c1 = (g2, c2)
           \<and> nullaryremove close True False default_rename g2 c2 = Inr (g3, c')
           \<and> g' = trim (unaryremove star g3) False)"
proof (intro allI impI)
  fix g' c'
  assume a: "cnf star close g c = Inr (g', c')"
  then obtain g1 c1 where st: "separate_terminals g c = Inr (g1, c1)"
    by (cases "separate_terminals g c") (auto simp: cnf_def bindE_def)
  obtain g2 c2 where bz: "binarize g1 c1 = (g2, c2)"
    by (cases "binarize g1 c1")
  from a st bz obtain g3 c3 where nr: "nullaryremove close True False default_rename g2 c2 = Inr (g3, c3)"
    by (cases "nullaryremove close True False default_rename g2 c2") (auto simp: cnf_def bindE_def)
  let ?new = "trim (unaryremove star g3) False"
  from a st bz nr have i: "bindE (in_cnf ?new) (\<lambda>b. if b then Inr (?new, c3) else Inl AssertionError)
      = Inr (g', c')"
    by (simp add: cnf_def bindE_def Let_def)
  then have ic: "in_cnf ?new = Inr True" and g': "g' = ?new" and c': "c' = c3"
    by (auto simp: bindE_def split: sum.splits if_splits)
  from ic g' have "cnf_form g'" by (simp add: in_cnf_form)
  then show "cnf_form g'
     \<and> (\<exists>g1 c1 g2 c2 g3. separate_terminals g c = Inr (g1, c1) \<and> binarize g1 c1 = (g2, c2)
           \<and> nullaryremove close True False default_rename g2 c2 = Inr (g3, c')
           \<and> g' = trim (unaryremove star g3) False)"
    using st bz nr g' c' by blast
qed

theorem cnf_code_order_witness:
  "cnf (\<lambda>x. 1) (=) (add' (add' (CFG (Str ''S'') [Str ''a''] :: nat cfg) 1 (Str ''S'') [Str ''A'']) 1 (Str ''A'') [Str ''a'', Str ''a'']) 0 = Inr (
      \<lparr>cfg_S = Str ''S'', cfg_V = [Str ''a''], cfg_N = [Str ''@1'', Str ''S''],
        cfg_rules = [Rule 1 (Str ''@1'') [Str ''a''],
          Rule 1 (Str ''S'') [Str ''@1'', Str ''@1'']]\<rparr>, 1) \<and> cnf_form (
      \<lparr>cfg_S = Str ''S'', cfg_V = [Str ''a''], cfg_N = [Str ''@1'', Str ''S''],
        cfg_rules = [Rule 1 (Str ''@1'') [Str ''a''],
          Rule 1 (Str ''S'') [Str ''@1'', Str ''@1'']]\<rparr> :: nat cfg)"
proof -
  let ?g = "(add' (add' (CFG (Str ''S'') [Str ''a''] :: nat cfg) 1 (Str ''S'') [Str ''A'']) 1 (Str ''A'') [Str ''a'', Str ''a''])"
  define g1 :: "nat cfg" where
    "g1 = \<lparr>cfg_S = Str ''S'', cfg_V = [Str ''a''], cfg_N = [Str ''A'', Str ''@1'', Str ''S''],
        cfg_rules = [Rule 1 (Str ''S'') [Str ''A''],
          Rule 1 (Str ''@1'') [Str ''a''],
          Rule 1 (Str ''A'') [Str ''@1'', Str ''@1'']]\<rparr>"
  define g2 :: "nat cfg" where
    "g2 = \<lparr>cfg_S = Str ''S'', cfg_V = [Str ''a''], cfg_N = [Str ''@1'', Str ''A'', Str ''S''],
        cfg_rules = [Rule 1 (Str ''A'') [Str ''@1'', Str ''@1''],
          Rule 1 (Str ''@1'') [Str ''a''],
          Rule 1 (Str ''S'') [Str ''A'']]\<rparr>"
  define g3 :: "nat cfg" where
    "g3 = \<lparr>cfg_S = Str ''S'', cfg_V = [Str ''a''], cfg_N = [Str ''A'', Str ''@1'', Str ''S''],
        cfg_rules = [Rule 1 (Str ''S'') [Str ''A''],
          Rule 1 (Str ''@1'') [Str ''a''],
          Rule 1 (Str ''A'') [Str ''@1'', Str ''@1'']]\<rparr>"
  define g4 :: "nat cfg" where
    "g4 = \<lparr>cfg_S = Str ''S'', cfg_V = [Str ''a''], cfg_N = [Str ''A'', Str ''@1'', Str ''S''],
        cfg_rules = [Rule 1 (Str ''@1'') [Str ''a''],
          Rule 1 (Str ''A'') [Str ''@1'', Str ''@1''],
          Rule 1 (Str ''S'') [Str ''@1'', Str ''@1'']]\<rparr>"
  define g5 :: "nat cfg" where
    "g5 = \<lparr>cfg_S = Str ''S'', cfg_V = [Str ''a''], cfg_N = [Str ''@1'', Str ''S''],
        cfg_rules = [Rule 1 (Str ''@1'') [Str ''a''],
          Rule 1 (Str ''S'') [Str ''@1'', Str ''@1'']]\<rparr>"
  have st: "separate_terminals ?g 0 = Inr (g1, 1)"
    unfolding g1_def by code_simp
  have bz: "binarize g1 1 = (g2, 1)"
    unfolding g1_def g2_def by code_simp
  have nr: "nullaryremove (=) True False default_rename g2 1 = Inr (g3, 1)"
    unfolding g2_def g3_def by code_simp
  have ur: "unaryremove (\<lambda>x. 1) g3 = g4"
    unfolding g3_def g4_def by code_simp
  have tr: "trim g4 False = g5"
    unfolding g4_def g5_def by code_simp
  have ic: "in_cnf g5 = Inr True"
    unfolding g5_def by code_simp
  have c: "cnf (\<lambda>x. 1) (=) ?g 0 = Inr (g5, 1)"
    unfolding cnf_def
    by (simp only: st bindE_def sum.case prod.case bz nr ur tr ic Let_def if_True)

  from cnf_code_order [rule_format, OF c] have "cnf_form g5" by (rule conjunct1)
  with c show ?thesis unfolding g5_def by (intro conjI)
qed

section \<open>Enumerating derivations\<close>

text \<open>
  C10: for a terminal \<open>a\<close> of \<open>V\<close> and every integer height bound \<open>H\<close> (zero and negative
  ones too), \<open>derivations(a, H)\<close> yields exactly the one element \<open>a\<close>; for a nonterminal
  \<open>X\<close> and \<open>H \<le> 0\<close> it yields nothing.
\<close>

theorem derivations_terminal:
  "(a \<in> set (cfg_V g) \<longrightarrow> derivations g (Some a) H = [Leaf a])
   \<and> (is_nonterminal g X \<and> H' \<le> 0 \<longrightarrow> derivations g (Some X) H' = [])"
  by (simp add: is_terminal_def is_nonterminal_def)

theorem derivations_terminal_witness:
  "Str ''a'' \<in> set (cfg_V (CFG (Str ''S'') [Str ''a''] :: nat cfg))
   \<and> derivations (CFG (Str ''S'') [Str ''a''] :: nat cfg) (Some (Str ''a'')) (- 3) = [Leaf (Str ''a'')]
   \<and> derivations (CFG (Str ''S'') [Str ''a''] :: nat cfg) (Some (Str ''a'')) 0 = [Leaf (Str ''a'')]
   \<and> is_nonterminal (CFG (Str ''S'') [Str ''a''] :: nat cfg) (Str ''S'')
   \<and> derivations (CFG (Str ''S'') [Str ''a''] :: nat cfg) (Some (Str ''S'')) 0 = []"
  using derivations_terminal [of "Str ''a''" "CFG (Str ''S'') [Str ''a''] :: nat cfg" "- 3" "Str ''S''" 0]
    derivations_terminal [of "Str ''a''" "CFG (Str ''S'') [Str ''a''] :: nat cfg" 0 "Str ''S''" 0]
  by (simp add: CFG_def is_nonterminal_def is_terminal_def)

end
